theory Spec2Isabelle
  imports Main "HOL-Library.Char_ord" "HOL-Library.List_Lexorder" "HOL-Library.Option_ord"
    "HOL-Library.Multiset"
begin

section \<open>Python values used by the repository\<close>

text \<open>
  Exceptions are values. \<open>ValueError\<close> is the validation error of the task model and of
  \<open>create_task\<close>; \<open>RuntimeError\<close> is what the repository raises from its
  \<open>except sqlite3.Error\<close> handlers; \<open>SqliteError\<close> is \<open>sqlite3.Error\<close> itself (and
  its subclasses, such as \<open>IntegrityError\<close>); \<open>OverflowError\<close> is raised by the
  \<open>sqlite3\<close> module when a Python integer bound to a statement parameter does not fit the
  engine's 64-bit INTEGER; \<open>UnicodeEncodeError\<close> is raised by it when a \<open>str\<close>
  bound to a statement parameter has no UTF-8 encoding; \<open>TypeError\<close> is subscripting
  \<open>None\<close>. In Python \<open>UnicodeEncodeError\<close> is a subclass of \<open>ValueError\<close>, so a
  handler for \<open>ValueError\<close> catches it; it is not a \<open>sqlite3.Error\<close>.
\<close>

datatype exn =
    ValueError string
  | RuntimeError string
  | SqliteError string
  | OverflowError string
  | UnicodeEncodeError string
  | TypeError string

fun message :: "exn \<Rightarrow> string" where
  "message (ValueError m) = m"
| "message (RuntimeError m) = m"
| "message (SqliteError m) = m"
| "message (OverflowError m) = m"
| "message (UnicodeEncodeError m) = m"
| "message (TypeError m) = m"

fun is_storage_error :: "exn \<Rightarrow> bool" where
  "is_storage_error (RuntimeError m) = True"
| "is_storage_error (SqliteError m) = True"
| "is_storage_error (ValueError m) = False"
| "is_storage_error (OverflowError m) = False"
| "is_storage_error (UnicodeEncodeError m) = False"
| "is_storage_error (TypeError m) = False"

fun is_validation_error :: "exn \<Rightarrow> bool" where
  "is_validation_error (ValueError m) = True"
| "is_validation_error (RuntimeError m) = False"
| "is_validation_error (SqliteError m) = False"
| "is_validation_error (OverflowError m) = False"
| "is_validation_error (UnicodeEncodeError m) = True"
| "is_validation_error (TypeError m) = False"

text \<open>
  A Python \<open>str\<close> is a sequence of Unicode code points (what \<open>ord\<close> returns): the
  integers from 0 to \<open>0x10FFFF\<close>, the surrogates \<open>0xD800\<close> to \<open>0xDFFF\<close> among them (a \<open>str\<close> may hold
  a lone surrogate; command-line arguments that are not valid UTF-8 arrive that way). The
  task description is such a \<open>str\<close>. The status and the timestamps are ASCII texts that
  the repository and the storage engine write themselves; they stay lists of characters,
  and \<open>ascii\<close> reads such a literal as a \<open>str\<close>.
\<close>

type_synonym str = "int list"

definition ascii :: "string \<Rightarrow> str" where
  "ascii s = map of_char s"

definition is_surrogate :: "int \<Rightarrow> bool" where
  "is_surrogate c = (55296 \<le> c \<and> c \<le> 57343)"

text \<open>
  \<open>str.strip()\<close> without argument removes leading and trailing whitespace: the code
  points for which \<open>str.isspace\<close> holds.
\<close>

definition py_isspace :: "int \<Rightarrow> bool" where
  "py_isspace c =
     (c \<in> {9, 10, 11, 12, 13, 28, 29, 30, 31, 32, 133, 160, 5760, 8232, 8233, 8239, 8287, 12288} \<or>
      (8192 \<le> c \<and> c \<le> 8202))"

definition strip :: "str \<Rightarrow> str" where
  "strip s = rev (dropWhile py_isspace (rev (dropWhile py_isspace s)))"

subsection \<open>Timestamps\<close>

text \<open>
  A \<open>datetime\<close> without time zone, to the second (the resolution of the storage engine's
  \<open>CURRENT_TIMESTAMP\<close>). \<open>make_datetime\<close> is the constructor with its range checks.
\<close>

record datetime =
  year :: nat
  month :: nat
  day :: nat
  hour :: nat
  minute :: nat
  second :: nat

definition is_leap :: "nat \<Rightarrow> bool" where
  "is_leap y = (y mod 4 = 0 \<and> (y mod 100 \<noteq> 0 \<or> y mod 400 = 0))"

definition days_in_month :: "nat \<Rightarrow> nat \<Rightarrow> nat" where
  "days_in_month y m =
     (if m = 2 then (if is_leap y then 29 else 28)
      else if m = 4 \<or> m = 6 \<or> m = 9 \<or> m = 11 then 30 else 31)"

definition valid_datetime :: "datetime \<Rightarrow> bool" where
  "valid_datetime dt =
     (1 \<le> year dt \<and> year dt \<le> 9999 \<and> 1 \<le> month dt \<and> month dt \<le> 12 \<and>
      1 \<le> day dt \<and> day dt \<le> days_in_month (year dt) (month dt) \<and>
      hour dt < 24 \<and> minute dt < 60 \<and> second dt < 60)"

definition make_datetime :: "nat \<Rightarrow> nat \<Rightarrow> nat \<Rightarrow> nat \<Rightarrow> nat \<Rightarrow> nat \<Rightarrow> exn + datetime" where
  "make_datetime y mo d h mi s =
     (let dt = \<lparr>year = y, month = mo, day = d, hour = h, minute = mi, second = s\<rparr>
      in if valid_datetime dt then Inr dt else Inl (ValueError ''value out of range''))"

text \<open>Decimal digits: rendering and reading.\<close>

definition digit :: "nat \<Rightarrow> char" where
  "digit n = ''0123456789'' ! (n mod 10)"

definition pad2 :: "nat \<Rightarrow> string" where
  "pad2 n = [digit (n div 10), digit n]"

definition pad4 :: "nat \<Rightarrow> string" where
  "pad4 n = [digit (n div 1000), digit (n div 100), digit (n div 10), digit n]"

definition digit_val :: "char \<Rightarrow> nat option" where
  "digit_val c =
     (let n = (of_char c :: nat) in if 48 \<le> n \<and> n \<le> 57 then Some (n - 48) else None)"

fun digits_val :: "nat \<Rightarrow> string \<Rightarrow> nat option" where
  "digits_val acc [] = Some acc"
| "digits_val acc (c # cs) =
     (case digit_val c of None \<Rightarrow> None | Some d \<Rightarrow> digits_val (10 * acc + d) cs)"

text \<open>
  The storage engine's \<open>CURRENT_TIMESTAMP\<close>: the text \<open>YYYY-MM-DD HH:MM:SS\<close> of the
  engine's clock reading.
\<close>

definition CURRENT_TIMESTAMP :: "datetime \<Rightarrow> string" where
  "CURRENT_TIMESTAMP dt =
     pad4 (year dt) @ ''-'' @ pad2 (month dt) @ ''-'' @ pad2 (day dt) @ '' '' @
     pad2 (hour dt) @ '':'' @ pad2 (minute dt) @ '':'' @ pad2 (second dt)"

text \<open>
  The two library parsers the repository calls, on the 19-character form
  \<open>YYYY-MM-DD?HH:MM:SS\<close> with fixed-width fields: \<open>datetime.fromisoformat\<close> accepts
  any single separator character between date and time, \<open>datetime.strptime\<close> with the
  format \<open>%Y-%m-%d %H:%M:%S\<close> wants a space there. Texts of any other shape are a
  \<open>ValueError\<close> in this model (the library accepts a few more shapes, none of which
  the storage engine produces).
\<close>

definition parse_fields :: "string \<Rightarrow> exn + datetime" where
  "parse_fields s =
     (case (digits_val 0 (take 4 s), digits_val 0 (take 2 (drop 5 s)),
            digits_val 0 (take 2 (drop 8 s)), digits_val 0 (take 2 (drop 11 s)),
            digits_val 0 (take 2 (drop 14 s)), digits_val 0 (take 2 (drop 17 s))) of
        (Some y, Some mo, Some d, Some h, Some mi, Some sec) \<Rightarrow> make_datetime y mo d h mi sec
      | _ \<Rightarrow> Inl (ValueError ''Invalid isoformat string''))"

definition fromisoformat :: "string \<Rightarrow> exn + datetime" where
  "fromisoformat s =
     (if length s = 19 \<and> s ! 4 = CHR ''-'' \<and> s ! 7 = CHR ''-'' \<and>
         s ! 13 = CHR '':'' \<and> s ! 16 = CHR '':''
      then parse_fields s
      else Inl (ValueError ''Invalid isoformat string''))"

definition strptime :: "string \<Rightarrow> exn + datetime" where
  "strptime s =
     (if length s = 19 \<and> s ! 4 = CHR ''-'' \<and> s ! 7 = CHR ''-'' \<and> s ! 10 = CHR '' '' \<and>
         s ! 13 = CHR '':'' \<and> s ! 16 = CHR '':''
      then parse_fields s
      else Inl (ValueError ''time data does not match format''))"

section \<open>The task entity (models/task.py)\<close>

record task =
  t_id :: "int option"
  t_description :: str
  t_status :: string
  t_created_at :: datetime
  t_completed_at :: "datetime option"

text \<open>Construction of a \<open>Task\<close> runs \<open>__post_init__\<close>: validation and trimming.\<close>

definition Task :: "int option \<Rightarrow> str \<Rightarrow> string \<Rightarrow> datetime \<Rightarrow> datetime option \<Rightarrow> exn + task" where
  "Task i description status created_at completed_at =
     (if description = [] \<or> strip description = []
      then Inl (ValueError ''Description cannot be empty'')
      else if status = ''pending'' \<and> completed_at \<noteq> None
      then Inl (ValueError ''Pending tasks cannot have a completion timestamp'')
      else if status = ''completed'' \<and> completed_at = None
      then Inl (ValueError ''Completed tasks must have a completion timestamp'')
      else Inr \<lparr>t_id = i, t_description = strip description, t_status = status,
                t_created_at = created_at, t_completed_at = completed_at\<rparr>)"

section \<open>The storage engine\<close>

text \<open>
  The table \<open>tasks\<close> of migrations.py: its rows in rowid order, and the
  \<open>sqlite_sequence\<close> counter of the AUTOINCREMENT key (the largest rowid ever used).
  The columns declared NOT NULL carry a value by type.
\<close>

record row =
  r_id :: int
  r_description :: str
  r_status :: string
  r_created_at :: string
  r_completed_at :: "string option"

record database =
  tasks :: "row list"
  seq :: int

definition empty_database :: database where
  "empty_database = \<lparr>tasks = [], seq = 0\<rparr>"

text \<open>The engine's INTEGER is a signed 64-bit integer.\<close>

definition in_int64 :: "int \<Rightarrow> bool" where
  "in_int64 i = (- 9223372036854775808 \<le> i \<and> i \<le> 9223372036854775807)"

text \<open>
  SQL \<open>length(X)\<close> of a text value: the number of characters before the first NUL
  character.
\<close>

definition sql_length :: "str \<Rightarrow> nat" where
  "sql_length s = length (takeWhile (\<lambda>c. c \<noteq> 0) s)"

text \<open>The CHECK constraints of \<open>CREATE TABLE tasks\<close>.\<close>

definition valid_completion :: "row \<Rightarrow> bool" where
  "valid_completion r =
     ((r_status r = ''pending'' \<and> r_completed_at r = None) \<or>
      (r_status r = ''completed'' \<and> r_completed_at r \<noteq> None))"

definition check_constraints :: "row \<Rightarrow> bool" where
  "check_constraints r =
     (sql_length (r_description r) > 0 \<and>
      (r_status r = ''pending'' \<or> r_status r = ''completed'') \<and>
      valid_completion r)"

text \<open>What the engine guarantees of a stored table: the primary key and the checks.\<close>

definition table_ok :: "database \<Rightarrow> bool" where
  "table_ok db =
     (distinct (map r_id (tasks db)) \<and> list_all (\<lambda>r. in_int64 (r_id r)) (tasks db) \<and>
      in_int64 (seq db) \<and> list_all check_constraints (tasks db))"

text \<open>
  AUTOINCREMENT: the new rowid is one more than the largest rowid the table has ever
  held; when that was the largest INTEGER, the insert fails (SQLITE_FULL).
\<close>

definition next_rowid :: "database \<Rightarrow> int" where
  "next_rowid db = fold max (map r_id (tasks db)) (seq db) + 1"

text \<open>
  \<open>INSERT INTO tasks\<close> with the given column values; without a rowid the engine
  assigns one. The result is the new rowid (\<open>cursor.lastrowid\<close>) and the table.
\<close>

definition sql_insert ::
  "int option \<Rightarrow> str \<Rightarrow> string \<Rightarrow> string \<Rightarrow> string option \<Rightarrow> database \<Rightarrow> exn + (int \<times> database)" where
  "sql_insert rowid description status created_at completed_at db =
     (let i = (case rowid of None \<Rightarrow> next_rowid db | Some j \<Rightarrow> j);
          r = \<lparr>r_id = i, r_description = description, r_status = status,
               r_created_at = created_at, r_completed_at = completed_at\<rparr>
      in if \<not> in_int64 i then Inl (SqliteError ''database or disk is full'')
         else if i \<in> set (map r_id (tasks db))
         then Inl (SqliteError ''UNIQUE constraint failed: tasks.id'')
         else if \<not> check_constraints r then Inl (SqliteError ''CHECK constraint failed'')
         else Inr (i, \<lparr>tasks = tasks db @ [r], seq = max (seq db) i\<rparr>))"

text \<open>
  \<open>UPDATE tasks SET ... WHERE ...\<close>: the rows selected by \<open>cond\<close> are replaced by
  their image under \<open>set_cols\<close>; the statement fails as a whole when a new row breaks a
  constraint. The result is the number of rows updated (\<open>cursor.rowcount\<close>).
\<close>

definition sql_update ::
  "(row \<Rightarrow> bool) \<Rightarrow> (row \<Rightarrow> row) \<Rightarrow> database \<Rightarrow> exn + (nat \<times> database)" where
  "sql_update cond set_cols db =
     (let rows' = map (\<lambda>r. if cond r then set_cols r else r) (tasks db)
      in if \<not> list_all (\<lambda>r. in_int64 (r_id r)) rows' then Inl (SqliteError ''datatype mismatch'')
         else if \<not> distinct (map r_id rows')
         then Inl (SqliteError ''UNIQUE constraint failed: tasks.id'')
         else if \<not> list_all check_constraints rows'
         then Inl (SqliteError ''CHECK constraint failed'')
         else Inr (length (filter cond (tasks db)), db\<lparr>tasks := rows'\<rparr>))"

text \<open>\<open>DELETE FROM tasks WHERE ...\<close>, with the number of rows removed.\<close>

definition sql_delete :: "(row \<Rightarrow> bool) \<Rightarrow> database \<Rightarrow> nat \<times> database" where
  "sql_delete cond db =
     (length (filter cond (tasks db)), db\<lparr>tasks := filter (\<lambda>r. \<not> cond r) (tasks db)\<rparr>)"

text \<open>
  \<open>ORDER BY key DESC\<close>: a stable descending sort of the rows in the order in which the
  engine's query plan visits them. SQL leaves the order of rows with equal keys to the
  engine; here it is whatever the plan delivers.
\<close>

fun insert_desc :: "('a \<Rightarrow> 'k::linorder) \<Rightarrow> 'a \<Rightarrow> 'a list \<Rightarrow> 'a list" where
  "insert_desc key x [] = [x]"
| "insert_desc key x (y # ys) =
     (if key y \<le> key x then x # y # ys else y # insert_desc key x ys)"

definition order_by_desc :: "('a \<Rightarrow> 'k::linorder) \<Rightarrow> 'a list \<Rightarrow> 'a list" where
  "order_by_desc key xs = foldr (insert_desc key) xs []"

subsection \<open>The connection (database/connection.py)\<close>

text \<open>
  What the repository does not control is a parameter of every call: the path the
  repository was opened on, the calls into the engine that fail with \<open>sqlite3.Error\<close>,
  the reading of the engine's clock, and the order in which the engine's plan visits rows.
\<close>

datatype step = Connect | Execute nat | Commit

record env =
  database_path :: string
  failing :: "step list"
  now :: datetime
  plan :: "row list \<Rightarrow> row list"

definition no_faults :: "env \<Rightarrow> bool" where
  "no_faults e = (failing e = [])"

definition plan_ok :: "env \<Rightarrow> bool" where
  "plan_ok e = (\<forall>rs. mset (plan e rs) = mset rs)"

text \<open>
  \<open>_get_connection\<close>: the persistent connection of an in-memory database, else a new
  connection from \<open>get_connection\<close>, which raises \<open>sqlite3.Error\<close> when it fails.
\<close>

definition get_connection :: "env \<Rightarrow> exn + unit" where
  "get_connection e =
     (if database_path e = '':memory:'' then Inr ()
      else if Connect \<in> set (failing e)
      then Inl (SqliteError ''Failed to connect to database'')
      else Inr ())"

text \<open>
  Binding a Python integer, and a \<open>str\<close>, to a statement parameter. The \<open>str\<close> is
  encoded as UTF-8, which has no encoding of a surrogate.
\<close>

definition bind_int :: "int \<Rightarrow> exn + int" where
  "bind_int i =
     (if in_int64 i then Inr i
      else Inl (OverflowError ''Python int too large to convert to SQLite INTEGER''))"

definition bind_text :: "str \<Rightarrow> exn + str" where
  "bind_text s =
     (if list_ex is_surrogate s then Inl (UnicodeEncodeError ''surrogates not allowed'')
      else Inr s)"

text \<open>
  \<open>connection.commit()\<close> makes the transaction's table the stored one, or fails;
  \<open>connection.rollback()\<close> discards the transaction's table (a rollback itself is
  taken to succeed). Closing the connection of a file database at the end of a call
  changes nothing: by then the transaction is committed or rolled back, or has written
  nothing.
\<close>

definition commit :: "env \<Rightarrow> database \<Rightarrow> exn + database" where
  "commit e tx =
     (if Commit \<in> set (failing e) then Inl (SqliteError ''commit failed'') else Inr tx)"

definition rollback :: "database \<Rightarrow> database \<Rightarrow> database" where
  "rollback db tx = db"

section \<open>The repository (database/repository.py)\<close>

text \<open>
  Every operation takes the environment of the call and the stored database, and returns
  its result (or the exception it raises) and, for the operations that write, the stored
  database afterwards. Statements of one call are numbered in the order of the code.
  \<open>cursor.execute\<close> prepares the statement and opens the transaction, which is where
  \<open>execute\<close> fails, then binds the parameters, then runs the statement. An exception
  that is not a \<open>sqlite3.Error\<close> passes the handler: nothing is rolled back, and nothing
  has been written.
\<close>

definition execute :: "env \<Rightarrow> nat \<Rightarrow> exn + unit" where
  "execute e n =
     (if Execute n \<in> set (failing e) then Inl (SqliteError ''statement failed'') else Inr ())"

text \<open>
  \<open>_row_to_task\<close>: the three branches on the shape of the timestamp text, the
  truthiness test on \<open>completed_at\<close>, and the \<open>Task\<close> constructor.
\<close>

definition parse_timestamp :: "string \<Rightarrow> exn + datetime" where
  "parse_timestamp s =
     (if s \<noteq> [] \<and> last s = CHR ''Z'' then fromisoformat (butlast s)
      else if CHR ''T'' \<in> set s then fromisoformat s
      else strptime s)"

definition row_to_task :: "row \<Rightarrow> exn + task" where
  "row_to_task r =
     (case parse_timestamp (r_created_at r) of
        Inl x \<Rightarrow> Inl x
      | Inr created_at \<Rightarrow>
          (case (case r_completed_at r of
                   None \<Rightarrow> Inr None
                 | Some s \<Rightarrow> if s = [] then Inr None
                            else (case parse_timestamp s of
                                    Inl x \<Rightarrow> Inl x | Inr c \<Rightarrow> Inr (Some c))) of
             Inl x \<Rightarrow> Inl x
           | Inr completed_at \<Rightarrow>
               Task (Some (r_id r)) (r_description r) (r_status r) created_at completed_at))"

text \<open>The list comprehension \<open>[self._row_to_task(row) for row in rows]\<close>.\<close>

fun rows_to_tasks :: "row list \<Rightarrow> exn + task list" where
  "rows_to_tasks [] = Inr []"
| "rows_to_tasks (r # rs) =
     (case row_to_task r of
        Inl x \<Rightarrow> Inl x
      | Inr t \<Rightarrow> (case rows_to_tasks rs of Inl x \<Rightarrow> Inl x | Inr ts \<Rightarrow> Inr (t # ts)))"

text \<open>\<open>cursor.fetchone()\<close> of a SELECT by id.\<close>

definition select_by_id :: "int \<Rightarrow> database \<Rightarrow> row option" where
  "select_by_id i db =
     (case filter (\<lambda>r. r_id r = i) (tasks db) of [] \<Rightarrow> None | r # rs \<Rightarrow> Some r)"

definition create_task :: "env \<Rightarrow> str option \<Rightarrow> database \<Rightarrow> (exn + task) \<times> database" where
  "create_task e description db =
     (case description of
        None \<Rightarrow> (Inl (ValueError ''Description cannot be empty''), db)
      | Some d \<Rightarrow>
          if d = [] \<or> strip d = []
          then (Inl (ValueError ''Description cannot be empty''), db)
          else (case get_connection e of
             Inl x \<Rightarrow> (Inl x, db)
           | Inr u \<Rightarrow>
              (case execute e 0 of
                 Inl x \<Rightarrow> (Inl (RuntimeError (''Failed to create task: '' @ message x)), rollback db db)
               | Inr u \<Rightarrow>
                (case bind_text (strip d) of
                   Inl x \<Rightarrow> (Inl x, db)
                 | Inr param \<Rightarrow>
                  (case sql_insert None param ''pending'' (CURRENT_TIMESTAMP (now e)) None db of
                     Inl x \<Rightarrow> (Inl (RuntimeError (''Failed to create task: '' @ message x)), rollback db db)
                   | Inr (task_id, tx) \<Rightarrow>
                      (case execute e 1 of
                         Inl x \<Rightarrow> (Inl (RuntimeError (''Failed to create task: '' @ message x)), rollback db tx)
                       | Inr u \<Rightarrow>
                          (case commit e tx of
                             Inl x \<Rightarrow> (Inl (RuntimeError (''Failed to create task: '' @ message x)), rollback db tx)
                           | Inr db' \<Rightarrow>
                              (case select_by_id task_id tx of
                                 None \<Rightarrow> (Inl (TypeError ''NoneType object is not subscriptable''), db')
                               | Some r \<Rightarrow>
                                  (case fromisoformat (r_created_at r) of
                                     Inl x \<Rightarrow> (Inl x, db')
                                   | Inr created_at \<Rightarrow>
                                       (Task (Some (r_id r)) (r_description r) (r_status r)
                                          created_at None, db'))))))))))"

text \<open>The SET clause of the update in \<open>mark_completed\<close>.\<close>

definition completed_row :: "env \<Rightarrow> row \<Rightarrow> row" where
  "completed_row e r =
     r\<lparr>r_status := ''completed'', r_completed_at := Some (CURRENT_TIMESTAMP (now e))\<rparr>"

definition mark_completed :: "env \<Rightarrow> int \<Rightarrow> database \<Rightarrow> (exn + bool) \<times> database" where
  "mark_completed e task_id db =
     (case get_connection e of
        Inl x \<Rightarrow> (Inl x, db)
      | Inr u \<Rightarrow>
         (case execute e 0 of
            Inl x \<Rightarrow> (Inl (RuntimeError (''Failed to mark task completed: '' @ message x)), rollback db db)
          | Inr u \<Rightarrow>
             (case bind_int task_id of
                Inl x \<Rightarrow> (Inl x, db)
              | Inr i \<Rightarrow>
                 (case sql_update (\<lambda>r. r_id r = i \<and> r_status r = ''pending'')
                         (completed_row e) db of
                    Inl x \<Rightarrow> (Inl (RuntimeError (''Failed to mark task completed: '' @ message x)), rollback db db)
                  | Inr (rows_affected, tx) \<Rightarrow>
                     (case commit e tx of
                        Inl x \<Rightarrow> (Inl (RuntimeError (''Failed to mark task completed: '' @ message x)), rollback db tx)
                      | Inr db' \<Rightarrow> (Inr (rows_affected = 1), db'))))))"

definition delete_task :: "env \<Rightarrow> int \<Rightarrow> database \<Rightarrow> (exn + bool) \<times> database" where
  "delete_task e task_id db =
     (case get_connection e of
        Inl x \<Rightarrow> (Inl x, db)
      | Inr u \<Rightarrow>
         (case execute e 0 of
            Inl x \<Rightarrow> (Inl (RuntimeError (''Failed to delete task: '' @ message x)), rollback db db)
          | Inr u \<Rightarrow>
             (case bind_int task_id of
                Inl x \<Rightarrow> (Inl x, db)
              | Inr i \<Rightarrow>
                 (case sql_delete (\<lambda>r. r_id r = i) db of
                    (rows_affected, tx) \<Rightarrow>
                     (case commit e tx of
                        Inl x \<Rightarrow> (Inl (RuntimeError (''Failed to delete task: '' @ message x)), rollback db tx)
                      | Inr db' \<Rightarrow> (Inr (rows_affected = 1), db'))))))"

definition get_all_tasks :: "env \<Rightarrow> database \<Rightarrow> exn + task list" where
  "get_all_tasks e db =
     (case get_connection e of
        Inl x \<Rightarrow> Inl x
      | Inr u \<Rightarrow>
         (case execute e 0 of
            Inl x \<Rightarrow> Inl (RuntimeError (''Failed to retrieve all tasks: '' @ message x))
          | Inr u \<Rightarrow> rows_to_tasks (order_by_desc r_created_at (plan e (tasks db)))))"

definition get_pending_tasks :: "env \<Rightarrow> database \<Rightarrow> exn + task list" where
  "get_pending_tasks e db =
     (case get_connection e of
        Inl x \<Rightarrow> Inl x
      | Inr u \<Rightarrow>
         (case execute e 0 of
            Inl x \<Rightarrow> Inl (RuntimeError (''Failed to retrieve pending tasks: '' @ message x))
          | Inr u \<Rightarrow>
              rows_to_tasks (order_by_desc r_created_at
                (plan e (filter (\<lambda>r. r_status r = ''pending'') (tasks db))))))"

definition get_completed_tasks :: "env \<Rightarrow> database \<Rightarrow> exn + task list" where
  "get_completed_tasks e db =
     (case get_connection e of
        Inl x \<Rightarrow> Inl x
      | Inr u \<Rightarrow>
         (case execute e 0 of
            Inl x \<Rightarrow> Inl (RuntimeError (''Failed to retrieve completed tasks: '' @ message x))
          | Inr u \<Rightarrow>
              rows_to_tasks (order_by_desc r_completed_at
                (plan e (filter (\<lambda>r. r_status r = ''completed'') (tasks db))))))"

definition get_task_by_id :: "env \<Rightarrow> int \<Rightarrow> database \<Rightarrow> exn + task option" where
  "get_task_by_id e task_id db =
     (case get_connection e of
        Inl x \<Rightarrow> Inl x
      | Inr u \<Rightarrow>
         (case execute e 0 of
            Inl x \<Rightarrow> Inl (RuntimeError (''Failed to retrieve task by ID: '' @ message x))
          | Inr u \<Rightarrow>
             (case bind_int task_id of
                Inl x \<Rightarrow> Inl x
              | Inr i \<Rightarrow>
                 (case select_by_id i db of
                    None \<Rightarrow> Inr None
                  | Some r \<Rightarrow> (case row_to_task r of Inl x \<Rightarrow> Inl x | Inr t \<Rightarrow> Inr (Some t))))))"

subsection \<open>Callers and reachable states\<close>

text \<open>A caller that repeats one operation, once for each environment of the list.\<close>

fun repeat_calls ::
  "(env \<Rightarrow> database \<Rightarrow> 'a \<times> database) \<Rightarrow> env list \<Rightarrow> database \<Rightarrow> 'a list \<times> database" where
  "repeat_calls operation [] db = ([], db)"
| "repeat_calls operation (e # es) db =
     (case operation e db of
        (res, db') \<Rightarrow> (case repeat_calls operation es db' of (rs, db'') \<Rightarrow> (res # rs, db'')))"

text \<open>
  The databases the repository can be in: the empty table that \<open>create_schema\<close> leaves,
  and then any sequence of the three operations that write, each in any environment
  whose clock shows a date that exists.
\<close>

inductive reachable :: "database \<Rightarrow> bool" where
  schema: "reachable empty_database"
| create: "reachable db \<Longrightarrow> valid_datetime (now e) \<Longrightarrow>
           reachable (snd (create_task e description db))"
| complete: "reachable db \<Longrightarrow> valid_datetime (now e) \<Longrightarrow>
           reachable (snd (mark_completed e task_id db))"
| delete: "reachable db \<Longrightarrow> reachable (snd (delete_task e task_id db))"

text \<open>
  A storage failure during a call: one of the steps the operation takes fails (the
  connection step only exists when the database is not in memory).
\<close>

definition storage_failure :: "env \<Rightarrow> step list \<Rightarrow> bool" where
  "storage_failure e steps =
     list_ex (\<lambda>s. s \<in> set (failing e) \<and> (s = Connect \<longrightarrow> database_path e \<noteq> '':memory:'')) steps"





text \<open>Texts that the engine's clock writes, and rows as the repository writes them.\<close>

definition stamp_ok :: "string \<Rightarrow> bool" where
  "stamp_ok s = (\<exists>dt. valid_datetime dt \<and> s = CURRENT_TIMESTAMP dt)"

definition row_inv :: "row \<Rightarrow> bool" where
  "row_inv r =
     (strip (r_description r) = r_description r \<and> stamp_ok (r_created_at r) \<and>
      (\<forall>s. r_completed_at r = Some s \<longrightarrow> stamp_ok s))"

definition repo_inv :: "database \<Rightarrow> bool" where
  "repo_inv db = (table_ok db \<and> list_all row_inv (tasks db))"

section \<open>Properties\<close>

subsection \<open>Timestamps read back as written\<close>

lemma digit_cases:
  assumes "m < (10::nat)"
  obtains "m = 0" | "m = 1" | "m = 2" | "m = 3" | "m = 4" | "m = 5" | "m = 6" | "m = 7" | "m = 8" | "m = 9"
proof -
  from assms have "m = 0 \<or> m = 1 \<or> m = 2 \<or> m = 3 \<or> m = 4 \<or> m = 5 \<or> m = 6 \<or> m = 7 \<or> m = 8 \<or> m = 9"
    by presburger
  then show thesis using that by blast
qed

lemma digit_val_nth: "m < 10 \<Longrightarrow> digit_val (''0123456789'' ! m) = Some m"
  by (erule digit_cases) (simp_all add: digit_val_def)

lemma digit_val_digit: "digit_val (digit n) = Some (n mod 10)"
  by (simp add: digit_def digit_val_nth)

lemma decimal_4:
  assumes "n < (10000::nat)"
  shows "10 * (10 * (10 * (n div 1000 mod 10) + n div 100 mod 10) + n div 10 mod 10) + n mod 10 = n"
proof -
  have a: "n div 1000 mod 10 = n div 1000" using assms by simp
  have b: "n div 100 = 10 * (n div 1000) + n div 100 mod 10"
    using div_mult_mod_eq[of "n div 100" 10] by (simp add: div_mult2_eq[symmetric])
  have c: "n div 10 = 10 * (n div 100) + n div 10 mod 10"
    using div_mult_mod_eq[of "n div 10" 10] by (simp add: div_mult2_eq[symmetric])
  have "10 * (10 * (10 * (n div 1000 mod 10) + n div 100 mod 10) + n div 10 mod 10) + n mod 10
          = 10 * (10 * (n div 100) + n div 10 mod 10) + n mod 10"
    by (simp only: a b[symmetric])
  also have "\<dots> = 10 * (n div 10) + n mod 10" by (simp only: c[symmetric])
  also have "\<dots> = n" by simp
  finally show ?thesis .
qed

lemma digits_val_2: "n < 100 \<Longrightarrow> digits_val 0 [digit (n div 10), digit n] = Some n"
  by (simp add: digit_val_digit)

lemma digits_val_4:
  "n < 10000 \<Longrightarrow>
   digits_val 0 [digit (n div 1000), digit (n div 100), digit (n div 10), digit n] = Some n"
  using decimal_4[of n] by (simp add: digit_val_digit)

lemma digit_in: "digit n \<in> set ''0123456789''"
  unfolding digit_def by (rule nth_mem) simp

lemma digit_not_sep:
  "digit n \<noteq> CHR ''Z''" "digit n \<noteq> CHR ''T''" "digit n \<noteq> CHR ''-''"
  "digit n \<noteq> CHR '':''" "digit n \<noteq> CHR '' ''"
  using digit_in[of n] by auto

lemma length_CURRENT_TIMESTAMP: "length (CURRENT_TIMESTAMP dt) = 19"
  by (simp add: CURRENT_TIMESTAMP_def pad2_def pad4_def)

lemma valid_datetime_bounds:
  "valid_datetime dt \<Longrightarrow> year dt < 10000 \<and> month dt < 100 \<and> day dt < 100 \<and> hour dt < 100 \<and> minute dt < 100 \<and> second dt < 100"
  by (auto simp: valid_datetime_def days_in_month_def split: if_splits)

lemma datetime_rebuild:
  "\<lparr>year = year dt, month = month dt, day = day dt, hour = hour dt,
     minute = minute dt, second = second dt\<rparr> = (dt::datetime)"
  by simp

lemma parse_fields_CURRENT_TIMESTAMP:
  "valid_datetime dt \<Longrightarrow> parse_fields (CURRENT_TIMESTAMP dt) = Inr dt"
  using valid_datetime_bounds[of dt]
  by (simp add: parse_fields_def CURRENT_TIMESTAMP_def pad2_def pad4_def
        digits_val_2 digits_val_4 make_datetime_def Let_def datetime_rebuild
        del: digits_val.simps)

lemma fromisoformat_CURRENT_TIMESTAMP:
  "valid_datetime dt \<Longrightarrow> fromisoformat (CURRENT_TIMESTAMP dt) = Inr dt"
  unfolding fromisoformat_def
  by (simp add: parse_fields_CURRENT_TIMESTAMP length_CURRENT_TIMESTAMP)
     (simp add: CURRENT_TIMESTAMP_def pad2_def pad4_def)

lemma strptime_CURRENT_TIMESTAMP:
  "valid_datetime dt \<Longrightarrow> strptime (CURRENT_TIMESTAMP dt) = Inr dt"
  unfolding strptime_def
  by (simp add: parse_fields_CURRENT_TIMESTAMP length_CURRENT_TIMESTAMP)
     (simp add: CURRENT_TIMESTAMP_def pad2_def pad4_def)

lemma CURRENT_TIMESTAMP_shape:
  "CURRENT_TIMESTAMP dt \<noteq> []" "last (CURRENT_TIMESTAMP dt) \<noteq> CHR ''Z''"
  "CHR ''T'' \<notin> set (CURRENT_TIMESTAMP dt)"
  by (simp_all add: CURRENT_TIMESTAMP_def pad2_def pad4_def digit_not_sep digit_not_sep[symmetric])

lemma parse_timestamp_CURRENT_TIMESTAMP:
  "valid_datetime dt \<Longrightarrow> parse_timestamp (CURRENT_TIMESTAMP dt) = Inr dt"
  unfolding parse_timestamp_def
  by (simp add: strptime_CURRENT_TIMESTAMP CURRENT_TIMESTAMP_shape)

subsection \<open>Trimming\<close>

lemma dropWhile_rev_dropWhile_last:
  assumes "dropWhile P (rev t) = u" "u \<noteq> []" "t \<noteq> []"
  shows "last u = hd t"
proof -
  obtain ys where "rev t = ys @ u"
    using assms(1) by (metis takeWhile_dropWhile_id)
  with assms(2) have "last u = last (rev t)" by simp
  with assms(3) show ?thesis by (simp add: last_rev)
qed

lemma strip_eq_Nil_or_ends:
  "strip s = [] \<or> (\<not> py_isspace (hd (strip s)) \<and> \<not> py_isspace (last (strip s)))"
proof (cases "strip s = []")
  case True then show ?thesis by simp
next
  case False
  define t where "t = dropWhile py_isspace s"
  define u where "u = dropWhile py_isspace (rev t)"
  have su: "strip s = rev u" by (simp add: strip_def t_def u_def)
  with False have u: "u \<noteq> []" by simp
  then have t: "t \<noteq> []" unfolding u_def by auto
  have "\<not> py_isspace (hd u)" using u unfolding u_def by (simp add: hd_dropWhile)
  moreover have "last u = hd t" using dropWhile_rev_dropWhile_last[OF u_def[symmetric] u t] .
  moreover have "\<not> py_isspace (hd t)" using t unfolding t_def by (simp add: hd_dropWhile)
  ultimately show ?thesis using u by (simp add: su hd_rev last_rev)
qed

lemma strip_idem: "strip (strip s) = strip s"
proof (cases "strip s = []")
  case True
  have "strip [] = []" by (simp add: strip_def)
  with True show ?thesis by simp
next
  case False
  with strip_eq_Nil_or_ends[of s]
  have h: "\<not> py_isspace (hd (strip s))" and l: "\<not> py_isspace (last (strip s))" by auto
  have 1: "dropWhile py_isspace (strip s) = strip s"
    using False h by (simp add: dropWhile_eq_self_iff)
  have 2: "dropWhile py_isspace (rev (strip s)) = rev (strip s)"
    using False l by (simp add: dropWhile_eq_self_iff hd_rev)
  show ?thesis
    unfolding strip_def[of "strip s"] 1 2 by simp
qed

lemma strip_Nil_iff: "strip s = [] \<longleftrightarrow> (\<forall>c \<in> set s. py_isspace c)"
proof
  assume "strip s = []"
  then have "\<forall>c \<in> set (dropWhile py_isspace s). py_isspace c"
    by (simp add: strip_def)
  then have "dropWhile py_isspace (dropWhile py_isspace s) = []"
    by (simp only: dropWhile_eq_Nil_conv)
  then have "dropWhile py_isspace s = []" by (simp only: dropWhile_idem)
  then show "\<forall>c \<in> set s. py_isspace c" by (simp only: dropWhile_eq_Nil_conv)
next
  assume "\<forall>c \<in> set s. py_isspace c"
  then have "dropWhile py_isspace s = []" by simp
  then show "strip s = []" unfolding strip_def by (simp only: rev.simps dropWhile.simps)
qed

subsection \<open>The storage constraints\<close>

lemma sql_length_pos_iff: "0 < sql_length s \<longleftrightarrow> s \<noteq> [] \<and> hd s \<noteq> 0"
  by (cases s) (simp_all add: sql_length_def)

lemma le_fold_max: "(a::int) \<le> fold max xs a"
proof (induction xs arbitrary: a)
  case Nil show ?case by simp
next
  case (Cons x xs)
  have "a \<le> max x a" by simp
  also have "\<dots> \<le> fold max xs (max x a)" by (rule Cons.IH)
  finally show ?case by simp
qed

lemma mem_le_fold_max: "x \<in> set xs \<Longrightarrow> (x::int) \<le> fold max xs a"
proof (induction xs arbitrary: a)
  case Nil then show ?case by simp
next
  case (Cons y ys)
  show ?case
  proof (cases "x = y")
    case True
    have "x \<le> max y a" using True by simp
    also have "\<dots> \<le> fold max ys (max y a)" by (rule le_fold_max)
    finally show ?thesis by simp
  next
    case False
    with Cons.prems have "x \<in> set ys" by simp
    then show ?thesis using Cons.IH by simp
  qed
qed

lemma next_rowid_fresh: "r \<in> set (tasks db) \<Longrightarrow> r_id r < next_rowid db"
  using mem_le_fold_max[of "r_id r" "map r_id (tasks db)" "seq db"]
  by (simp add: next_rowid_def)

lemma next_rowid_gt_seq: "seq db < next_rowid db"
  using le_fold_max[of "seq db" "map r_id (tasks db)"] by (simp add: next_rowid_def)

lemma sql_insert_table_ok:
  assumes "table_ok db" "sql_insert rowid description status created_at completed_at db = Inr (i, db')"
  shows "table_ok db'"
  using assms
  by (auto simp: sql_insert_def table_ok_def Let_def in_int64_def max_def split: if_splits option.splits)

lemma sql_update_table_ok:
  assumes "sql_update cond set_cols db = Inr (n, db')" "in_int64 (seq db)"
  shows "table_ok db'"
  using assms
  by (auto simp: sql_update_def table_ok_def Let_def split: if_splits)

lemma sql_delete_table_ok:
  assumes "table_ok db" "sql_delete cond db = (n, db')"
  shows "table_ok db'"
  using assms
  by (auto simp: sql_delete_def table_ok_def distinct_map_filter list_all_iff)

subsection \<open>Validation in create_task\<close>

lemma create_task_blank:
  assumes "description = None \<or> (\<exists>d. description = Some d \<and> (d = [] \<or> (\<forall>c \<in> set d. py_isspace c)))"
  shows "create_task e description db = (Inl (ValueError ''Description cannot be empty''), db)"
  using assms by (auto simp: create_task_def strip_Nil_iff)

subsection \<open>The operations on a healthy engine\<close>


lemma select_by_id_append_fresh:
  assumes "\<forall>x \<in> set (tasks db). r_id x \<noteq> r_id r"
  shows "select_by_id (r_id r) \<lparr>tasks = tasks db @ [r], seq = n\<rparr> = Some r"
proof -
  have "filter (\<lambda>x. r_id x = r_id r) (tasks db) = []"
    using assms by (simp add: filter_empty_conv)
  then show ?thesis by (simp add: select_by_id_def)
qed

lemma sql_insert_auto:
  assumes "0 < sql_length description" "in_int64 (next_rowid db)"
  shows "sql_insert None description ''pending'' created_at None db =
           Inr (next_rowid db,
                \<lparr>tasks = tasks db @ [\<lparr>r_id = next_rowid db, r_description = description,
                     r_status = ''pending'', r_created_at = created_at, r_completed_at = None\<rparr>],
                 seq = next_rowid db\<rparr>)"
proof -
  have "next_rowid db \<notin> r_id ` set (tasks db)"
    using next_rowid_fresh[of _ db] by fastforce
  moreover have "max (seq db) (next_rowid db) = next_rowid db"
    using next_rowid_gt_seq[of db] by simp
  ultimately show ?thesis
    using assms by (simp add: sql_insert_def Let_def check_constraints_def valid_completion_def)
qed

lemma sql_insert_auto_fail:
  assumes "\<not> 0 < sql_length description \<or> \<not> in_int64 (next_rowid db)"
  shows "\<exists>m. sql_insert None description ''pending'' created_at None db = Inl (SqliteError m)"
  using assms by (auto simp: sql_insert_def Let_def check_constraints_def)

lemma Task_pending:
  assumes "strip d \<noteq> []"
  shows "Task i (strip d) ''pending'' c None =
           Inr \<lparr>t_id = i, t_description = strip d, t_status = ''pending'',
                t_created_at = c, t_completed_at = None\<rparr>"
  using assms by (auto simp: Task_def strip_idem)

lemma no_faults_simps:
  assumes "no_faults e"
  shows "get_connection e = Inr ()" "execute e n = Inr ()" "commit e tx = Inr tx"
  using assms by (simp_all add: no_faults_def get_connection_def execute_def commit_def)

lemma bind_text_ok: "\<not> list_ex is_surrogate s \<Longrightarrow> bind_text s = Inr s"
  by (simp add: bind_text_def)

lemma create_task_ok:
  assumes d: "strip d \<noteq> []" "hd (strip d) \<noteq> 0"
    and enc: "\<not> list_ex is_surrogate (strip d)"
    and e: "no_faults e" "valid_datetime (now e)"
    and full: "in_int64 (next_rowid db)"
  shows "create_task e (Some d) db =
           (Inr \<lparr>t_id = Some (next_rowid db), t_description = strip d, t_status = ''pending'',
                 t_created_at = now e, t_completed_at = None\<rparr>,
            \<lparr>tasks = tasks db @ [\<lparr>r_id = next_rowid db, r_description = strip d,
                 r_status = ''pending'', r_created_at = CURRENT_TIMESTAMP (now e),
                 r_completed_at = None\<rparr>],
             seq = next_rowid db\<rparr>)"
proof -
  let ?r = "\<lparr>r_id = next_rowid db, r_description = strip d, r_status = ''pending'',
             r_created_at = CURRENT_TIMESTAMP (now e), r_completed_at = None\<rparr>"
  have len: "0 < sql_length (strip d)" using d by (simp add: sql_length_pos_iff)
  have ne: "d \<noteq> []" using d(1) by (auto simp: strip_def)
  have sel: "select_by_id (next_rowid db) \<lparr>tasks = tasks db @ [?r], seq = next_rowid db\<rparr> = Some ?r"
    using select_by_id_append_fresh[of db ?r] next_rowid_fresh[of _ db] by fastforce
  show ?thesis
    unfolding create_task_def
    by (simp add: ne d no_faults_simps[OF e(1)] bind_text_ok[OF enc] sql_insert_auto[OF len full] sel
          fromisoformat_CURRENT_TIMESTAMP[OF e(2)] Task_pending[OF d(1)])
qed


lemma bind_int_ok: "in_int64 i \<Longrightarrow> bind_int i = Inr i"
  by (simp add: bind_int_def)

lemma check_constraints_completed_row:
  "check_constraints r \<Longrightarrow> check_constraints (completed_row e r)"
  by (simp add: check_constraints_def valid_completion_def completed_row_def)

lemma sql_update_complete:
  assumes "table_ok db"
  shows "sql_update (\<lambda>r. r_id r = i \<and> r_status r = ''pending'') (completed_row e) db =
           Inr (length (filter (\<lambda>r. r_id r = i \<and> r_status r = ''pending'') (tasks db)),
                db\<lparr>tasks := map (\<lambda>r. if r_id r = i \<and> r_status r = ''pending''
                                        then completed_row e r else r) (tasks db)\<rparr>)"
proof -
  let ?f = "\<lambda>r. if r_id r = i \<and> r_status r = ''pending'' then completed_row e r else r"
  have ids: "map r_id (map ?f (tasks db)) = map r_id (tasks db)"
    by (simp add: completed_row_def)
  have 1: "list_all (\<lambda>r. in_int64 (r_id r)) (map ?f (tasks db))"
    using assms by (auto simp: table_ok_def list_all_iff completed_row_def)
  have 2: "distinct (map r_id (map ?f (tasks db)))"
    using assms unfolding ids by (simp add: table_ok_def)
  have 3: "list_all check_constraints (map ?f (tasks db))"
    using assms by (auto simp: table_ok_def list_all_iff check_constraints_completed_row)
  show ?thesis
    unfolding sql_update_def Let_def using 1 2 3 by simp
qed

lemma distinct_filter_id_length:
  assumes "distinct (map r_id rs)"
  shows "length (filter (\<lambda>r. r_id r = i \<and> P r) rs) \<le> 1"
  using assms
proof (induction rs)
  case Nil then show ?case by simp
next
  case (Cons r rs)
  show ?case
  proof (cases "r_id r = i")
    case True
    from Cons.prems have "r_id r \<notin> r_id ` set rs" by simp
    then have "\<forall>x \<in> set rs. r_id x \<noteq> r_id r" by (metis imageI)
    then have "filter (\<lambda>x. r_id x = i \<and> P x) rs = []"
      using True by (simp add: filter_empty_conv)
    then show ?thesis by simp
  next
    case False
    then show ?thesis using Cons by simp
  qed
qed

lemma distinct_filter_id_one:
  assumes "distinct (map r_id rs)"
  shows "(length (filter (\<lambda>r. r_id r = i \<and> P r) rs) = Suc 0) = (\<exists>r \<in> set rs. r_id r = i \<and> P r)"
proof -
  have "(filter (\<lambda>r. r_id r = i \<and> P r) rs \<noteq> []) = (\<exists>r \<in> set rs. r_id r = i \<and> P r)"
    by (simp add: filter_empty_conv)
  moreover have "length (filter (\<lambda>r. r_id r = i \<and> P r) rs) \<le> 1"
    by (rule distinct_filter_id_length[OF assms])
  ultimately show ?thesis
    by (cases "filter (\<lambda>r. r_id r = i \<and> P r) rs") auto
qed

lemma mark_completed_ok:
  assumes "in_int64 task_id" "table_ok db" "no_faults e"
  shows "mark_completed e task_id db =
           (Inr (\<exists>r \<in> set (tasks db). r_id r = task_id \<and> r_status r = ''pending''),
            db\<lparr>tasks := map (\<lambda>r. if r_id r = task_id \<and> r_status r = ''pending''
                                    then completed_row e r else r) (tasks db)\<rparr>)"
proof -
  have d: "distinct (map r_id (tasks db))" using assms(2) by (simp add: table_ok_def)
  show ?thesis
    unfolding mark_completed_def
    by (simp add: no_faults_simps[OF assms(3)] bind_int_ok[OF assms(1)]
          sql_update_complete[OF assms(2)] distinct_filter_id_one[OF d])
qed

lemma delete_task_ok:
  assumes "in_int64 task_id" "table_ok db" "no_faults e"
  shows "delete_task e task_id db =
           (Inr (\<exists>r \<in> set (tasks db). r_id r = task_id),
            db\<lparr>tasks := filter (\<lambda>r. r_id r \<noteq> task_id) (tasks db)\<rparr>)"
proof -
  have d: "distinct (map r_id (tasks db))" using assms(2) by (simp add: table_ok_def)
  have "(length (filter (\<lambda>r. r_id r = task_id) (tasks db)) = Suc 0) = (\<exists>r \<in> set (tasks db). r_id r = task_id)"
    using distinct_filter_id_one[OF d, of task_id "\<lambda>r. True"] by simp
  then show ?thesis
    unfolding delete_task_def
    by (simp add: no_faults_simps[OF assms(3)] bind_int_ok[OF assms(1)] sql_delete_def)
qed

subsection \<open>What create_task returns is what get_task_by_id reads\<close>

lemma strptime_is_parse_fields:
  "strptime (CURRENT_TIMESTAMP dt) = parse_fields (CURRENT_TIMESTAMP dt)"
  unfolding strptime_def
  by (simp add: length_CURRENT_TIMESTAMP) (simp add: CURRENT_TIMESTAMP_def pad2_def pad4_def)

lemma fromisoformat_is_parse_fields:
  "fromisoformat (CURRENT_TIMESTAMP dt) = parse_fields (CURRENT_TIMESTAMP dt)"
  unfolding fromisoformat_def
  by (simp add: length_CURRENT_TIMESTAMP) (simp add: CURRENT_TIMESTAMP_def pad2_def pad4_def)

lemma parse_timestamp_is_fromisoformat:
  "parse_timestamp (CURRENT_TIMESTAMP dt) = fromisoformat (CURRENT_TIMESTAMP dt)"
  unfolding parse_timestamp_def
  by (simp add: CURRENT_TIMESTAMP_shape strptime_is_parse_fields fromisoformat_is_parse_fields)

lemma sql_insert_auto_result:
  assumes "sql_insert None description status created_at completed_at db = Inr (i, tx)"
  shows "i = next_rowid db \<and> in_int64 i \<and>
         tasks tx = tasks db @ [\<lparr>r_id = i, r_description = description, r_status = status,
                       r_created_at = created_at, r_completed_at = completed_at\<rparr>] \<and>
         select_by_id i tx = Some \<lparr>r_id = i, r_description = description, r_status = status,
                       r_created_at = created_at, r_completed_at = completed_at\<rparr>"
proof -
  have i: "i = next_rowid db" and r: "in_int64 i"
    and tx: "tx = \<lparr>tasks = tasks db @ [\<lparr>r_id = i, r_description = description, r_status = status,
                       r_created_at = created_at, r_completed_at = completed_at\<rparr>],
                 seq = max (seq db) i\<rparr>"
    using assms by (auto simp: sql_insert_def Let_def split: if_splits)
  have "filter (\<lambda>x. r_id x = i) (tasks db) = []"
    using next_rowid_fresh[of _ db] unfolding i by (fastforce simp: filter_empty_conv)
  then have "select_by_id i tx = Some \<lparr>r_id = i, r_description = description, r_status = status,
                       r_created_at = created_at, r_completed_at = completed_at\<rparr>"
    by (simp add: select_by_id_def tx)
  with i r tx show ?thesis by simp
qed

lemma create_task_result:
  assumes "create_task e description db = (Inr t, db')"
  shows "\<exists>d r c. description = Some d \<and> select_by_id (r_id r) db' = Some r \<and> in_int64 (r_id r) \<and>
           r_id r = next_rowid db \<and> tasks db' = tasks db @ [r] \<and>
           r_description r = strip d \<and> r_status r = ''pending'' \<and>
           r_created_at r = CURRENT_TIMESTAMP (now e) \<and> r_completed_at r = None \<and>
           fromisoformat (r_created_at r) = Inr c \<and>
           Task (Some (r_id r)) (r_description r) (r_status r) c None = Inr t"
proof -
  obtain d where d: "description = Some d"
    using assms by (cases description) (simp_all add: create_task_def)
  from assms obtain i tx where ins:
    "sql_insert None (strip d) ''pending'' (CURRENT_TIMESTAMP (now e)) None db = Inr (i, tx)"
    and db': "db' = tx"
    unfolding d create_task_def
    by (auto simp: commit_def rollback_def bind_text_def
          split: if_splits sum.splits option.splits prod.splits)
  let ?r = "\<lparr>r_id = i, r_description = strip d, r_status = ''pending'',
             r_created_at = CURRENT_TIMESTAMP (now e), r_completed_at = None\<rparr>"
  note res = sql_insert_auto_result[OF ins]
  from res have sel: "select_by_id i tx = Some ?r" by blast
  from res have ri: "i = next_rowid db" by blast
  from res have rr: "in_int64 i" by blast
  from res have rt: "tasks tx = tasks db @ [?r]" by blast
  from assms obtain c where c: "fromisoformat (CURRENT_TIMESTAMP (now e)) = Inr c"
    and t: "Task (Some i) (strip d) ''pending'' c None = Inr t"
    unfolding d create_task_def
    by (auto simp: ins sel commit_def rollback_def bind_text_def split: if_splits sum.splits)
  show ?thesis
  proof (intro exI[of _ d] exI[of _ ?r] exI[of _ c] conjI)
    show "tasks db' = tasks db @ [?r]" using rt db' by simp
    show "select_by_id (r_id ?r) db' = Some ?r" using sel db' by simp
    show "in_int64 (r_id ?r)" using rr by simp
    show "r_id ?r = next_rowid db" using ri by simp
    show "Task (Some (r_id ?r)) (r_description ?r) (r_status ?r) c None = Inr t" using t by simp
    show "fromisoformat (r_created_at ?r) = Inr c" using c by simp
  qed (simp_all add: d)
qed

lemma get_task_by_id_after_create:
  assumes "create_task e description db = (Inr t, db')" "no_faults e'"
  shows "\<exists>i. t_id t = Some i \<and> get_task_by_id e' i db' = Inr (Some t)"
proof -
  from create_task_result[OF assms(1)] obtain d r c where
    sel: "select_by_id (r_id r) db' = Some r" and rng: "in_int64 (r_id r)"
    and ca: "r_created_at r = CURRENT_TIMESTAMP (now e)" and co: "r_completed_at r = None"
    and c: "fromisoformat (r_created_at r) = Inr c"
    and t: "Task (Some (r_id r)) (r_description r) (r_status r) c None = Inr t"
    by blast
  have "parse_timestamp (r_created_at r) = Inr c"
    using c unfolding ca by (simp add: parse_timestamp_is_fromisoformat)
  then have conv: "row_to_task r = Inr t"
    by (simp add: row_to_task_def co t)
  have id: "t_id t = Some (r_id r)"
    using t by (auto simp: Task_def split: if_splits)
  have "get_task_by_id e' (r_id r) db' = Inr (Some t)"
    unfolding get_task_by_id_def
    by (simp add: no_faults_simps[OF assms(2)] bind_int_ok[OF rng] sel conv)
  with id show ?thesis by blast
qed

subsection \<open>Ordering and conversion of query results\<close>

lemma mset_insert_desc: "mset (insert_desc key x xs) = add_mset x (mset xs)"
  by (induction xs) simp_all

lemma mset_order_by_desc: "mset (order_by_desc key xs) = mset xs"
  unfolding order_by_desc_def by (induction xs) (simp_all add: mset_insert_desc)

lemma set_order_by_desc: "set (order_by_desc key xs) = set xs"
  using mset_order_by_desc[of key xs] by (rule mset_eq_setD)




lemma plan_ok_set: "plan_ok e \<Longrightarrow> set (plan e rs) = set rs"
  unfolding plan_ok_def by (metis mset_eq_setD)


lemma rows_to_tasks_mem:
  assumes "rows_to_tasks rs = Inr ts" "t \<in> set ts"
  shows "\<exists>r \<in> set rs. row_to_task r = Inr t"
  using assms by (induction rs arbitrary: ts) (auto split: sum.splits)

lemma rows_to_tasks_mem_row:
  assumes "rows_to_tasks rs = Inr ts" "r \<in> set rs"
  shows "\<exists>t \<in> set ts. row_to_task r = Inr t"
  using assms by (induction rs arbitrary: ts) (auto split: sum.splits)

lemma Task_fields:
  assumes "Task i d s c co = Inr t"
  shows "t_id t = i" "t_description t = strip d" "t_status t = s" "t_created_at t = c"
    "t_completed_at t = co" "(s = ''pending'') \<longrightarrow> (co = None)" "(s = ''completed'') \<longrightarrow> (co \<noteq> None)"
  using assms by (auto simp: Task_def split: if_splits)

lemma row_to_task_fields:
  assumes "row_to_task r = Inr t"
  shows "t_id t = Some (r_id r)" "t_status t = r_status r" "t_description t = strip (r_description r)"
  using assms by (auto simp: row_to_task_def split: sum.splits dest: Task_fields)

lemma row_to_task_invariant:
  assumes "row_to_task r = Inr t" "check_constraints r"
  shows "(t_status t = ''pending'') = (t_completed_at t = None)"
proof -
  from assms(1) obtain c co where t: "Task (Some (r_id r)) (r_description r) (r_status r) c co = Inr t"
    by (auto simp: row_to_task_def split: sum.splits)
  have s: "r_status r = ''pending'' \<or> r_status r = ''completed''"
    using assms(2) by (simp add: check_constraints_def)
  show ?thesis
    using Task_fields(3,5,6,7)[OF t] s by auto
qed

subsection \<open>Errors leave the stored database unchanged; the constraints are kept\<close>

lemma create_task_cases:
  "snd (create_task e description db) = db \<or>
   (\<exists>d i. description = Some d \<and>
      sql_insert None (strip d) ''pending'' (CURRENT_TIMESTAMP (now e)) None db =
        Inr (i, snd (create_task e description db)))"
  unfolding create_task_def
  by (auto simp: commit_def rollback_def bind_text_def
        split: option.splits sum.splits prod.splits if_splits)

lemma mark_completed_cases:
  "snd (mark_completed e task_id db) = db \<or>
   (\<exists>n. in_int64 task_id \<and>
      sql_update (\<lambda>r. r_id r = task_id \<and> r_status r = ''pending'') (completed_row e) db =
        Inr (n, snd (mark_completed e task_id db)))"
  unfolding mark_completed_def
  by (auto simp: commit_def rollback_def bind_int_def split: sum.splits prod.splits if_splits)

lemma delete_task_cases:
  "snd (delete_task e task_id db) = db \<or>
   (in_int64 task_id \<and>
    snd (delete_task e task_id db) = snd (sql_delete (\<lambda>r. r_id r = task_id) db))"
  unfolding delete_task_def
  by (auto simp: commit_def rollback_def bind_int_def split: sum.splits prod.splits if_splits)

lemma Task_not_storage_error: "Task i d s c co = Inl x \<Longrightarrow> \<not> is_storage_error x"
  by (auto simp: Task_def split: if_splits)

lemma parse_fields_not_storage_error: "parse_fields s = Inl x \<Longrightarrow> \<not> is_storage_error x"
  by (auto simp: parse_fields_def make_datetime_def Let_def split: option.splits if_splits)

lemma fromisoformat_not_storage_error: "fromisoformat s = Inl x \<Longrightarrow> \<not> is_storage_error x"
  by (auto simp: fromisoformat_def split: if_splits dest: parse_fields_not_storage_error)

lemma strptime_not_storage_error: "strptime s = Inl x \<Longrightarrow> \<not> is_storage_error x"
  by (auto simp: strptime_def split: if_splits dest: parse_fields_not_storage_error)

lemma create_task_error_unchanged:
  assumes "create_task e description db = (Inl x, db')" "is_storage_error x"
  shows "db' = db"
  using assms unfolding create_task_def
  by (auto simp: rollback_def bind_text_def
        split: option.splits sum.splits prod.splits if_splits
        dest: Task_not_storage_error fromisoformat_not_storage_error)

lemma mark_completed_error_unchanged:
  assumes "mark_completed e task_id db = (Inl x, db')"
  shows "db' = db"
  using assms unfolding mark_completed_def
  by (auto simp: rollback_def split: sum.splits prod.splits if_splits)

lemma delete_task_error_unchanged:
  assumes "delete_task e task_id db = (Inl x, db')"
  shows "db' = db"
  using assms unfolding delete_task_def
  by (auto simp: rollback_def split: sum.splits prod.splits if_splits)

lemma create_task_table_ok: "table_ok db \<Longrightarrow> table_ok (snd (create_task e description db))"
  using create_task_cases[of e description db] by (auto dest: sql_insert_table_ok)

lemma mark_completed_table_ok: "table_ok db \<Longrightarrow> table_ok (snd (mark_completed e task_id db))"
  using mark_completed_cases[of e task_id db]
  by (auto dest: sql_update_table_ok simp: table_ok_def)

lemma delete_task_table_ok: "table_ok db \<Longrightarrow> table_ok (snd (delete_task e task_id db))"
  using delete_task_cases[of e task_id db]
  by (auto intro: sql_delete_table_ok[OF _ prod.collapse[symmetric]])

lemma table_ok_empty: "table_ok empty_database"
  by (simp add: table_ok_def empty_database_def in_int64_def)

lemma reachable_table_ok: "reachable db \<Longrightarrow> table_ok db"
  by (induction rule: reachable.induct)
     (simp_all add: table_ok_empty create_task_table_ok mark_completed_table_ok delete_task_table_ok)

subsection \<open>The completion invariant\<close>

lemma check_constraints_invariant:
  "check_constraints r \<Longrightarrow> (r_status r = ''pending'') = (r_completed_at r = None)"
  by (auto simp: check_constraints_def valid_completion_def)

lemma table_ok_rows: "table_ok db \<Longrightarrow> r \<in> set (tasks db) \<Longrightarrow> check_constraints r"
  by (simp add: table_ok_def list_all_iff)

lemma listed_task_invariant:
  assumes "table_ok db" "plan_ok e"
    and "rows_to_tasks (order_by_desc key (plan e (filter P (tasks db)))) = Inr ts" "t \<in> set ts"
  shows "(t_status t = ''pending'') = (t_completed_at t = None)"
proof -
  from rows_to_tasks_mem[OF assms(3,4)] obtain r
    where r: "r \<in> set (order_by_desc key (plan e (filter P (tasks db))))" and t: "row_to_task r = Inr t"
    by blast
  from r have "r \<in> set (tasks db)"
    by (simp add: set_order_by_desc plan_ok_set[OF assms(2)])
  then show ?thesis
    using row_to_task_invariant[OF t] table_ok_rows[OF assms(1)] by blast
qed

lemma get_all_tasks_invariant:
  assumes "table_ok db" "plan_ok e" "get_all_tasks e db = Inr ts" "t \<in> set ts"
  shows "(t_status t = ''pending'') = (t_completed_at t = None)"
proof -
  from assms(3) have "rows_to_tasks (order_by_desc r_created_at (plan e (filter (\<lambda>r. True) (tasks db)))) = Inr ts"
    by (auto simp: get_all_tasks_def split: sum.splits)
  from listed_task_invariant[OF assms(1,2) this assms(4)] show ?thesis .
qed

lemma get_pending_tasks_invariant:
  assumes "table_ok db" "plan_ok e" "get_pending_tasks e db = Inr ts" "t \<in> set ts"
  shows "(t_status t = ''pending'') = (t_completed_at t = None)"
proof -
  from assms(3) have "rows_to_tasks (order_by_desc r_created_at
      (plan e (filter (\<lambda>r. r_status r = ''pending'') (tasks db)))) = Inr ts"
    by (auto simp: get_pending_tasks_def split: sum.splits)
  from listed_task_invariant[OF assms(1,2) this assms(4)] show ?thesis .
qed

lemma get_completed_tasks_invariant:
  assumes "table_ok db" "plan_ok e" "get_completed_tasks e db = Inr ts" "t \<in> set ts"
  shows "(t_status t = ''pending'') = (t_completed_at t = None)"
proof -
  from assms(3) have "rows_to_tasks (order_by_desc r_completed_at
      (plan e (filter (\<lambda>r. r_status r = ''completed'') (tasks db)))) = Inr ts"
    by (auto simp: get_completed_tasks_def split: sum.splits)
  from listed_task_invariant[OF assms(1,2) this assms(4)] show ?thesis .
qed

lemma select_by_id_mem: "select_by_id i db = Some r \<Longrightarrow> r \<in> set (tasks db) \<and> r_id r = i"
proof -
  assume a: "select_by_id i db = Some r"
  then obtain rs where "filter (\<lambda>x. r_id x = i) (tasks db) = r # rs"
    by (auto simp: select_by_id_def split: list.splits)
  then have "r \<in> set (filter (\<lambda>x. r_id x = i) (tasks db))" by simp
  then show ?thesis by simp
qed

lemma get_task_by_id_invariant:
  assumes "table_ok db" "get_task_by_id e i db = Inr (Some t)"
  shows "(t_status t = ''pending'') = (t_completed_at t = None)"
proof -
  from assms(2) obtain r where "select_by_id i db = Some r" "row_to_task r = Inr t"
    by (auto simp: get_task_by_id_def bind_int_def split: sum.splits option.splits if_splits)
  then show ?thesis
    using row_to_task_invariant select_by_id_mem table_ok_rows[OF assms(1)] by blast
qed

subsection \<open>Repeating mark_completed and delete_task\<close>

lemma repeat_calls_fixed:
  assumes "\<forall>e \<in> set es. operation e db = (res, db)"
  shows "repeat_calls operation es db = (map (\<lambda>e. res) es, db)"
  using assms by (induction es) simp_all

lemma repeat_calls_unchanged:
  assumes "\<forall>e \<in> set es. snd (operation e db) = db"
  shows "snd (repeat_calls operation es db) = db"
  using assms by (induction es) (auto split: prod.splits)

lemma table_ok_row_unique:
  assumes "table_ok db" "r \<in> set (tasks db)" "x \<in> set (tasks db)" "r_id x = r_id r"
  shows "x = r"
  using assms(1) assms(2-4) unfolding table_ok_def
  by (metis distinct_map inj_onD)

lemma mark_completed_nothing_pending:
  assumes "\<forall>r \<in> set (tasks db). r_id r = task_id \<longrightarrow> r_status r \<noteq> ''pending''"
  shows "snd (mark_completed e task_id db) = db"
proof -
  have "map (\<lambda>r. if r_id r = task_id \<and> r_status r = ''pending'' then completed_row e r else r) (tasks db)
          = tasks db"
    using assms by (intro map_idI) auto
  then show ?thesis
    using mark_completed_cases[of e task_id db]
    by (auto simp: sql_update_def Let_def split: if_splits)
qed

lemma mark_completed_false:
  assumes "in_int64 task_id" "table_ok db" "no_faults e"
    and "\<forall>r \<in> set (tasks db). r_id r = task_id \<longrightarrow> r_status r \<noteq> ''pending''"
  shows "mark_completed e task_id db = (Inr False, db)"
proof -
  have "fst (mark_completed e task_id db) = Inr False"
    using assms(4) by (auto simp: mark_completed_ok[OF assms(1-3)])
  with mark_completed_nothing_pending[OF assms(4), of e] show ?thesis
    by (simp add: prod_eq_iff)
qed

lemma filter_id_singleton:
  assumes "distinct (map r_id rs)" "r \<in> set rs"
  shows "filter (\<lambda>x. r_id x = r_id r) rs = [r]"
  using assms
proof (induction rs)
  case Nil then show ?case by simp
next
  case (Cons y ys)
  show ?case
  proof (cases "y = r")
    case True
    from Cons.prems(1) have "r_id y \<notin> r_id ` set ys" by simp
    then have "\<forall>x \<in> set ys. r_id x \<noteq> r_id y" by (metis imageI)
    then have "filter (\<lambda>x. r_id x = r_id r) ys = []"
      using True by (simp add: filter_empty_conv)
    then show ?thesis using True by simp
  next
    case False
    with Cons.prems have r: "r \<in> set ys" by simp
    from Cons.prems(1) have "r_id y \<notin> r_id ` set ys" by simp
    with r have "r_id y \<noteq> r_id r" by (metis imageI)
    then show ?thesis using Cons.IH r Cons.prems(1) by simp
  qed
qed

lemma completed_rows_not_pending:
  fixes e :: env
  assumes "table_ok db" "r \<in> set (tasks db)" "r_id r = task_id" "r_status r = ''pending''"
  defines "db' \<equiv> db\<lparr>tasks := map (\<lambda>r. if r_id r = task_id \<and> r_status r = ''pending''
                                    then completed_row e r else r) (tasks db)\<rparr>"
  shows "\<forall>x \<in> set (tasks db'). r_id x = task_id \<longrightarrow> r_status x \<noteq> ''pending''"
    and "select_by_id task_id db' = Some (completed_row e r)"
proof -
  let ?f = "\<lambda>r. if r_id r = task_id \<and> r_status r = ''pending'' then completed_row e r else r"
  have pf: "(\<lambda>x. r_id x = task_id) \<circ> ?f = (\<lambda>x. r_id x = task_id)"
    by (rule ext) (simp add: completed_row_def)
  have tdb: "tasks db' = map ?f (tasks db)" by (simp add: db'_def)
  have np: "r_status x \<noteq> ''pending''" if "x \<in> set (tasks db')" "r_id x = task_id" for x
  proof -
    from that(1) obtain y where y: "y \<in> set (tasks db)" "x = ?f y" unfolding tdb by auto
    show ?thesis
    proof (cases "r_id y = task_id \<and> r_status y = ''pending''")
      case True
      then have "x = completed_row e y" using y(2) by simp
      then show ?thesis by (simp add: completed_row_def)
    next
      case False
      then have "x = y" using y(2) by auto
      with False that(2) show ?thesis by auto
    qed
  qed
  show "\<forall>x \<in> set (tasks db'). r_id x = task_id \<longrightarrow> r_status x \<noteq> ''pending''"
    using np by blast
  have d: "distinct (map r_id (tasks db))" using assms(1) by (simp add: table_ok_def)
  have "filter (\<lambda>x. r_id x = task_id) (tasks db) = [r]"
    using filter_id_singleton[OF d assms(2)] assms(3) by simp
  then have "filter (\<lambda>x. r_id x = task_id) (map ?f (tasks db)) = [?f r]"
    unfolding filter_map pf by simp
  moreover have "?f r = completed_row e r" using assms(3,4) by simp
  ultimately show "select_by_id task_id db' = Some (completed_row e r)"
    unfolding select_by_id_def tdb by simp
qed

lemma repeat_calls_Cons:
  "fst (repeat_calls operation (e # es) db) =
     fst (operation e db) # fst (repeat_calls operation es (snd (operation e db)))"
  "snd (repeat_calls operation (e # es) db) = snd (repeat_calls operation es (snd (operation e db)))"
  by (simp_all split: prod.splits)

lemma listed_task_row:
  assumes "plan_ok e"
    and "rows_to_tasks (order_by_desc key (plan e (filter P (tasks db)))) = Inr ts" "t \<in> set ts"
  shows "\<exists>r \<in> set (tasks db). P r \<and> row_to_task r = Inr t"
proof -
  from rows_to_tasks_mem[OF assms(2,3)] obtain r
    where r: "r \<in> set (order_by_desc key (plan e (filter P (tasks db))))" and t: "row_to_task r = Inr t"
    by blast
  from r have "r \<in> set (filter P (tasks db))"
    by (simp only: set_order_by_desc plan_ok_set[OF assms(1)])
  then show ?thesis using t by auto
qed

lemma get_all_tasks_rows:
  assumes "get_all_tasks e db = Inr ts"
  shows "rows_to_tasks (order_by_desc r_created_at (plan e (filter (\<lambda>r. True) (tasks db)))) = Inr ts"
  using assms by (auto simp: get_all_tasks_def split: sum.splits)

lemma get_pending_tasks_rows:
  assumes "get_pending_tasks e db = Inr ts"
  shows "rows_to_tasks (order_by_desc r_created_at
      (plan e (filter (\<lambda>r. r_status r = ''pending'') (tasks db)))) = Inr ts"
  using assms by (auto simp: get_pending_tasks_def split: sum.splits)

lemma get_completed_tasks_rows:
  assumes "get_completed_tasks e db = Inr ts"
  shows "rows_to_tasks (order_by_desc r_completed_at
      (plan e (filter (\<lambda>r. r_status r = ''completed'') (tasks db)))) = Inr ts"
  using assms by (auto simp: get_completed_tasks_def split: sum.splits)

lemma listed_task_id:
  assumes "plan_ok e"
    and "rows_to_tasks (order_by_desc key (plan e (filter P (tasks db)))) = Inr ts"
    and "\<forall>r \<in> set (tasks db). r_id r \<noteq> task_id"
  shows "Some task_id \<notin> t_id ` set ts"
proof
  assume "Some task_id \<in> t_id ` set ts"
  then obtain t where t: "t \<in> set ts" "t_id t = Some task_id" by auto
  from listed_task_row[OF assms(1,2) t(1)] obtain r
    where "r \<in> set (tasks db)" "row_to_task r = Inr t" by blast
  with row_to_task_fields(1)[of r t] t(2) assms(3) show False by auto
qed

lemma select_by_id_None: "\<forall>r \<in> set (tasks db). r_id r \<noteq> i \<Longrightarrow> select_by_id i db = None"
proof -
  assume "\<forall>r \<in> set (tasks db). r_id r \<noteq> i"
  then have "filter (\<lambda>r. r_id r = i) (tasks db) = []" by (simp add: filter_empty_conv)
  then show ?thesis by (simp add: select_by_id_def)
qed

lemma delete_task_nothing:
  assumes "\<forall>r \<in> set (tasks db). r_id r \<noteq> task_id"
  shows "snd (delete_task e task_id db) = db"
proof -
  have "filter (\<lambda>r. r_id r \<noteq> task_id) (tasks db) = tasks db"
    using assms by (simp add: filter_id_conv)
  then show ?thesis
    using delete_task_cases[of e task_id db] by (auto simp: sql_delete_def)
qed

lemma delete_task_false:
  assumes "in_int64 task_id" "table_ok db" "no_faults e"
    and "\<forall>r \<in> set (tasks db). r_id r \<noteq> task_id"
  shows "delete_task e task_id db = (Inr False, db)"
proof -
  have "fst (delete_task e task_id db) = Inr False"
    using assms(4) by (auto simp: delete_task_ok[OF assms(1-3)])
  with delete_task_nothing[OF assms(4), of e] show ?thesis
    by (simp add: prod_eq_iff)
qed

subsection \<open>Storage failures\<close>

lemma storage_failure_steps:
  "storage_failure e [Connect, Execute 0, Execute 1, Commit] =
     ((Connect \<in> set (failing e) \<and> database_path e \<noteq> '':memory:'') \<or> Execute 0 \<in> set (failing e) \<or>
      Execute 1 \<in> set (failing e) \<or> Commit \<in> set (failing e))"
  "storage_failure e [Connect, Execute 0, Commit] =
     ((Connect \<in> set (failing e) \<and> database_path e \<noteq> '':memory:'') \<or> Execute 0 \<in> set (failing e) \<or>
      Commit \<in> set (failing e))"
  "storage_failure e [Connect, Execute 0] =
     ((Connect \<in> set (failing e) \<and> database_path e \<noteq> '':memory:'') \<or> Execute 0 \<in> set (failing e))"
  "storage_failure e [Execute 1, Commit] =
     (Execute 1 \<in> set (failing e) \<or> Commit \<in> set (failing e))"
  by (auto simp: storage_failure_def)

lemma create_task_storage_failure:
  assumes "strip d \<noteq> []"
    and "storage_failure e [Connect, Execute 0] \<or>
         (\<not> list_ex is_surrogate (strip d) \<and>
          (storage_failure e [Execute 1, Commit] \<or>
           (\<exists>y. sql_insert None (strip d) ''pending'' (CURRENT_TIMESTAMP (now e)) None db = Inl y)))"
  shows "\<exists>x. create_task e (Some d) db = (Inl x, db) \<and> is_storage_error x"
proof -
  have ne: "d \<noteq> []" using assms(1) by (auto simp: strip_def)
  show ?thesis
    using assms(2) unfolding create_task_def storage_failure_steps
    by (auto simp: ne assms(1) get_connection_def execute_def commit_def rollback_def
          bind_text_def split: sum.splits prod.splits)
qed

lemma mark_completed_storage_failure:
  assumes "in_int64 task_id" "storage_failure e [Connect, Execute 0, Commit]"
  shows "\<exists>x. mark_completed e task_id db = (Inl x, db) \<and> is_storage_error x"
  using assms(2) unfolding mark_completed_def storage_failure_steps
  by (auto simp: bind_int_ok[OF assms(1)] get_connection_def execute_def commit_def rollback_def
        split: sum.splits prod.splits)

lemma delete_task_storage_failure:
  assumes "in_int64 task_id" "storage_failure e [Connect, Execute 0, Commit]"
  shows "\<exists>x. delete_task e task_id db = (Inl x, db) \<and> is_storage_error x"
  using assms(2) unfolding delete_task_def storage_failure_steps
  by (auto simp: bind_int_ok[OF assms(1)] get_connection_def execute_def commit_def rollback_def
        split: sum.splits prod.splits)

lemma query_storage_failure:
  assumes "storage_failure e [Connect, Execute 0]"
  shows "\<exists>x. get_all_tasks e db = Inl x \<and> is_storage_error x"
    and "\<exists>x. get_pending_tasks e db = Inl x \<and> is_storage_error x"
    and "\<exists>x. get_completed_tasks e db = Inl x \<and> is_storage_error x"
    and "\<exists>x. get_task_by_id e task_id db = Inl x \<and> is_storage_error x"
  using assms unfolding storage_failure_steps
  by (auto simp: get_all_tasks_def get_pending_tasks_def get_completed_tasks_def get_task_by_id_def
        get_connection_def execute_def)

lemma storage_not_validation: "is_storage_error x \<Longrightarrow> \<not> is_validation_error x"
  by (cases x) simp_all

subsection \<open>Rows as the repository writes them\<close>

lemma stamp_ok_CURRENT_TIMESTAMP: "valid_datetime dt \<Longrightarrow> stamp_ok (CURRENT_TIMESTAMP dt)"
  unfolding stamp_ok_def by blast

lemma sql_insert_rows:
  assumes "sql_insert rowid description status created_at completed_at db = Inr (i, db')"
  shows "tasks db' = tasks db @ [\<lparr>r_id = i, r_description = description, r_status = status,
                       r_created_at = created_at, r_completed_at = completed_at\<rparr>]"
  using assms by (auto simp: sql_insert_def Let_def split: if_splits)

lemma sql_update_rows:
  assumes "sql_update cond set_cols db = Inr (n, db')"
  shows "tasks db' = map (\<lambda>r. if cond r then set_cols r else r) (tasks db)"
  using assms by (auto simp: sql_update_def Let_def split: if_splits)

lemma row_inv_completed_row:
  assumes "row_inv r" "valid_datetime (now e)"
  shows "row_inv (completed_row e r)"
  using assms by (simp add: row_inv_def completed_row_def stamp_ok_CURRENT_TIMESTAMP)

lemma create_task_row_inv:
  assumes "list_all row_inv (tasks db)" "valid_datetime (now e)"
  shows "list_all row_inv (tasks (snd (create_task e description db)))"
proof -
  from create_task_cases[of e description db] show ?thesis
  proof
    assume "snd (create_task e description db) = db"
    then show ?thesis using assms(1) by simp
  next
    assume "\<exists>d i. description = Some d \<and>
      sql_insert None (strip d) ''pending'' (CURRENT_TIMESTAMP (now e)) None db =
        Inr (i, snd (create_task e description db))"
    then obtain d i where
      ins: "sql_insert None (strip d) ''pending'' (CURRENT_TIMESTAMP (now e)) None db =
              Inr (i, snd (create_task e description db))" by blast
    have "row_inv \<lparr>r_id = i, r_description = strip d, r_status = ''pending'',
             r_created_at = CURRENT_TIMESTAMP (now e), r_completed_at = None\<rparr>"
      by (simp add: row_inv_def strip_idem stamp_ok_CURRENT_TIMESTAMP[OF assms(2)])
    then show ?thesis
      using assms(1) unfolding sql_insert_rows[OF ins] by simp
  qed
qed

lemma mark_completed_row_inv:
  assumes "list_all row_inv (tasks db)" "valid_datetime (now e)"
  shows "list_all row_inv (tasks (snd (mark_completed e task_id db)))"
proof -
  from mark_completed_cases[of e task_id db] show ?thesis
  proof
    assume "snd (mark_completed e task_id db) = db"
    then show ?thesis using assms(1) by simp
  next
    assume "\<exists>n. in_int64 task_id \<and>
      sql_update (\<lambda>r. r_id r = task_id \<and> r_status r = ''pending'') (completed_row e) db =
        Inr (n, snd (mark_completed e task_id db))"
    then obtain n where
      upd: "sql_update (\<lambda>r. r_id r = task_id \<and> r_status r = ''pending'') (completed_row e) db =
              Inr (n, snd (mark_completed e task_id db))" by blast
    show ?thesis
      unfolding sql_update_rows[OF upd]
      using assms(1) row_inv_completed_row[OF _ assms(2)] by (auto simp: list_all_iff)
  qed
qed

lemma delete_task_row_inv:
  assumes "list_all row_inv (tasks db)"
  shows "list_all row_inv (tasks (snd (delete_task e task_id db)))"
  using delete_task_cases[of e task_id db] assms
  by (auto simp: sql_delete_def list_all_iff)

lemma reachable_repo_inv: "reachable db \<Longrightarrow> repo_inv db"
proof (induction rule: reachable.induct)
  case schema
  show ?case by (simp add: repo_inv_def table_ok_empty) (simp add: empty_database_def)
next
  case (create db e description)
  then show ?case
    by (simp add: repo_inv_def create_task_table_ok create_task_row_inv)
next
  case (complete db e task_id)
  then show ?case
    by (simp add: repo_inv_def mark_completed_table_ok mark_completed_row_inv)
next
  case (delete db e task_id)
  then show ?case
    by (simp add: repo_inv_def delete_task_table_ok delete_task_row_inv)
qed

text \<open>Every such row converts to a task.\<close>

lemma row_to_task_total:
  assumes "check_constraints r" "row_inv r"
  shows "\<exists>t. row_to_task r = Inr t"
proof -
  from assms(2) obtain dt where dt: "valid_datetime dt" "r_created_at r = CURRENT_TIMESTAMP dt"
    by (auto simp: row_inv_def stamp_ok_def)
  have created: "parse_timestamp (r_created_at r) = Inr dt"
    unfolding dt(2) by (rule parse_timestamp_CURRENT_TIMESTAMP[OF dt(1)])
  have desc: "r_description r \<noteq> []" "strip (r_description r) \<noteq> []"
    using assms by (auto simp: check_constraints_def row_inv_def sql_length_pos_iff)
  show ?thesis
  proof (cases "r_completed_at r")
    case None
    then have "r_status r = ''pending''"
      using assms(1) by (auto simp: check_constraints_def valid_completion_def)
    then show ?thesis
      by (simp add: row_to_task_def created None Task_def desc)
  next
    case (Some s)
    then obtain c where c: "valid_datetime c" "s = CURRENT_TIMESTAMP c"
      using assms(2) by (auto simp: row_inv_def stamp_ok_def)
    have s: "s \<noteq> []" "parse_timestamp s = Inr c"
      unfolding c(2) by (simp_all add: CURRENT_TIMESTAMP_shape parse_timestamp_CURRENT_TIMESTAMP[OF c(1)])
    have "r_status r = ''completed''"
      using assms(1) Some by (auto simp: check_constraints_def valid_completion_def)
    then show ?thesis
      by (simp add: row_to_task_def created Some s Task_def desc)
  qed
qed

lemma rows_to_tasks_total:
  assumes "\<forall>r \<in> set rs. \<exists>t. row_to_task r = Inr t"
  shows "\<exists>ts. rows_to_tasks rs = Inr ts"
  using assms by (induction rs) auto

lemma rows_to_tasks_set:
  assumes "rows_to_tasks rs = Inr ts"
  shows "set ts = {t. \<exists>r \<in> set rs. row_to_task r = Inr t}"
proof (intro set_eqI iffI)
  fix t assume "t \<in> set ts"
  then show "t \<in> {t. \<exists>r \<in> set rs. row_to_task r = Inr t}"
    using rows_to_tasks_mem[OF assms] by simp
next
  fix t assume "t \<in> {t. \<exists>r \<in> set rs. row_to_task r = Inr t}"
  then obtain r where r: "r \<in> set rs" "row_to_task r = Inr t" by blast
  from rows_to_tasks_mem_row[OF assms r(1)] obtain t' where "t' \<in> set ts" "row_to_task r = Inr t'"
    by blast
  with r(2) show "t \<in> set ts" by simp
qed

lemma listed_tasks:
  assumes "repo_inv db" "plan_ok e"
  shows "\<exists>ts. rows_to_tasks (order_by_desc key (plan e (filter P (tasks db)))) = Inr ts \<and>
              set ts = {t. \<exists>r \<in> set (tasks db). P r \<and> row_to_task r = Inr t}"
proof -
  let ?rs = "order_by_desc key (plan e (filter P (tasks db)))"
  have rs: "set ?rs = {r \<in> set (tasks db). P r}"
    by (simp add: set_order_by_desc plan_ok_set[OF assms(2)])
  have "\<forall>r \<in> set ?rs. \<exists>t. row_to_task r = Inr t"
  proof
    fix r assume "r \<in> set ?rs"
    then have "r \<in> set (tasks db)" unfolding rs by simp
    then have "check_constraints r" "row_inv r"
      using assms(1) by (simp_all add: repo_inv_def table_ok_def list_all_iff)
    then show "\<exists>t. row_to_task r = Inr t" by (rule row_to_task_total)
  qed
  from rows_to_tasks_total[OF this] obtain ts where ts: "rows_to_tasks ?rs = Inr ts" by blast
  have "set ts = {t. \<exists>r \<in> set (tasks db). P r \<and> row_to_task r = Inr t}"
    unfolding rows_to_tasks_set[OF ts] rs by blast
  with ts show ?thesis by blast
qed

lemma get_all_tasks_set:
  assumes "repo_inv db" "plan_ok e" "no_faults e"
  shows "\<exists>ts. get_all_tasks e db = Inr ts \<and>
              set ts = {t. \<exists>r \<in> set (tasks db). row_to_task r = Inr t}"
  using listed_tasks[OF assms(1,2), of r_created_at "\<lambda>r. True"]
  by (simp add: get_all_tasks_def no_faults_simps[OF assms(3)])

lemma get_pending_tasks_set:
  assumes "repo_inv db" "plan_ok e" "no_faults e"
  shows "\<exists>ts. get_pending_tasks e db = Inr ts \<and>
              set ts = {t. \<exists>r \<in> set (tasks db). r_status r = ''pending'' \<and> row_to_task r = Inr t}"
  using listed_tasks[OF assms(1,2), of r_created_at "\<lambda>r. r_status r = ''pending''"]
  by (simp add: get_pending_tasks_def no_faults_simps[OF assms(3)])

lemma get_completed_tasks_set:
  assumes "repo_inv db" "plan_ok e" "no_faults e"
  shows "\<exists>ts. get_completed_tasks e db = Inr ts \<and>
              set ts = {t. \<exists>r \<in> set (tasks db). r_status r = ''completed'' \<and> row_to_task r = Inr t}"
  using listed_tasks[OF assms(1,2), of r_completed_at "\<lambda>r. r_status r = ''completed''"]
  by (simp add: get_completed_tasks_def no_faults_simps[OF assms(3)])

subsection \<open>The text order of timestamps is the order of the dates\<close>



















subsection \<open>The operations on arguments the engine takes\<close>

text \<open>
  A description whose trimmed text is not empty, does not begin with a NUL character and
  holds no surrogate is stored: on an engine without storage failure whose clock shows a
  date that exists and whose id space is not exhausted, \<open>create_task\<close> appends exactly
  one row, with a fresh id assigned by the engine, the trimmed description, status
  pending, no completion time and the engine's timestamp; it returns the task with that
  id, the trimmed description, status pending, no completion time, and the creation time
  parsed from the text read back from the row.
\<close>

lemma create_task_inserts_pending:
  assumes "strip d \<noteq> []" and "hd (strip d) \<noteq> 0" and "\<not> list_ex is_surrogate (strip d)"
    and "no_faults e" and "valid_datetime (now e)" and "in_int64 (next_rowid db)"
  shows "create_task e (Some d) db =
           (Inr \<lparr>t_id = Some (next_rowid db), t_description = strip d, t_status = ''pending'',
                 t_created_at = now e, t_completed_at = None\<rparr>,
            \<lparr>tasks = tasks db @ [\<lparr>r_id = next_rowid db, r_description = strip d,
                 r_status = ''pending'', r_created_at = CURRENT_TIMESTAMP (now e),
                 r_completed_at = None\<rparr>],
             seq = next_rowid db\<rparr>) \<and>
         next_rowid db \<notin> r_id ` set (tasks db) \<and>
         fromisoformat (CURRENT_TIMESTAMP (now e)) = Inr (now e)"
proof -
  have "next_rowid db \<notin> r_id ` set (tasks db)"
    using next_rowid_fresh[of _ db] by fastforce
  then show ?thesis
    using create_task_ok[OF assms] fromisoformat_CURRENT_TIMESTAMP[OF assms(5)] by simp
qed

lemma create_task_inserts_pending_witness:
  "create_task \<lparr>database_path = '':memory:'', failing = [],
      now = \<lparr>year = 2025, month = 9, day = 29, hour = 12, minute = 0, second = 0\<rparr>, plan = id\<rparr>
      (Some (ascii ''  Buy groceries '')) empty_database =
    (Inr \<lparr>t_id = Some 1, t_description = ascii ''Buy groceries'', t_status = ''pending'',
          t_created_at = \<lparr>year = 2025, month = 9, day = 29, hour = 12, minute = 0, second = 0\<rparr>,
          t_completed_at = None\<rparr>,
     \<lparr>tasks = [\<lparr>r_id = 1, r_description = ascii ''Buy groceries'', r_status = ''pending'',
                r_created_at = ''2025-09-29 12:00:00'', r_completed_at = None\<rparr>], seq = 1\<rparr>)"
proof -
  let ?e = "\<lparr>database_path = '':memory:'', failing = [],
      now = \<lparr>year = 2025, month = 9, day = 29, hour = 12, minute = 0, second = 0\<rparr>, plan = id\<rparr>"
  have 1: "strip (ascii ''  Buy groceries '') \<noteq> []" by code_simp
  have 2: "hd (strip (ascii ''  Buy groceries '')) \<noteq> 0" by code_simp
  have s: "\<not> list_ex is_surrogate (strip (ascii ''  Buy groceries ''))" by code_simp
  have 3: "no_faults ?e" by (simp add: no_faults_def)
  have 4: "valid_datetime (now ?e)" by code_simp
  have 5: "in_int64 (next_rowid empty_database)" by code_simp
  have 6: "strip (ascii ''  Buy groceries '') = ascii ''Buy groceries''" by code_simp
  have 7: "next_rowid empty_database = 1" by code_simp
  have 8: "CURRENT_TIMESTAMP (now ?e) = ''2025-09-29 12:00:00''" by code_simp
  show ?thesis
    using create_task_inserts_pending[OF 1 2 s 3 4 5]
    unfolding 6 7 8 by (simp add: empty_database_def)
qed

text \<open>
  For an id in the range of the engine's 64-bit INTEGER, on a table that satisfies the
  constraints and an engine without storage failure, \<open>mark_completed\<close> is the one
  conditional update of the rows with that id and status pending, to status completed and
  the engine's timestamp; it returns true exactly when one row was updated, and returns
  false, raising nothing and changing nothing, when no row has that id or the row is
  already completed. For a pending task, of any number of calls the first returns true
  and every later one false, and whatever the later calls are (with or without storage
  failures, at any clock reading) the row keeps the completion time the first call wrote.
\<close>

lemma mark_completed_once:
  assumes "in_int64 task_id" and "table_ok db" and "no_faults e" and "list_all no_faults es"
  shows "mark_completed e task_id db =
           (Inr (length (filter (\<lambda>r. r_id r = task_id \<and> r_status r = ''pending'') (tasks db)) = 1),
            db\<lparr>tasks := map (\<lambda>r. if r_id r = task_id \<and> r_status r = ''pending''
                                    then completed_row e r else r) (tasks db)\<rparr>) \<and>
         ((\<forall>r \<in> set (tasks db). r_id r = task_id \<longrightarrow> r_status r \<noteq> ''pending'') \<longrightarrow>
            mark_completed e task_id db = (Inr False, db)) \<and>
         (\<forall>r \<in> set (tasks db). r_id r = task_id \<and> r_status r = ''pending'' \<longrightarrow>
            fst (repeat_calls (\<lambda>e. mark_completed e task_id) (e # es) db) =
              Inr True # map (\<lambda>e. Inr False) es \<and>
            select_by_id task_id (snd (repeat_calls (\<lambda>e. mark_completed e task_id) (e # es') db)) =
              Some (completed_row e r))"
proof (intro conjI impI ballI)
  let ?db1 = "db\<lparr>tasks := map (\<lambda>r. if r_id r = task_id \<and> r_status r = ''pending''
                                    then completed_row e r else r) (tasks db)\<rparr>"
  have d: "distinct (map r_id (tasks db))" using assms(2) by (simp add: table_ok_def)
  note first = mark_completed_ok[OF assms(1-3)]
  show "mark_completed e task_id db =
          (Inr (length (filter (\<lambda>r. r_id r = task_id \<and> r_status r = ''pending'') (tasks db)) = 1), ?db1)"
    unfolding first by (simp add: distinct_filter_id_one[OF d])
  show "mark_completed e task_id db = (Inr False, db)"
    if "\<forall>r \<in> set (tasks db). r_id r = task_id \<longrightarrow> r_status r \<noteq> ''pending''"
    using mark_completed_false[OF assms(1-3) that] .
  fix r assume r: "r \<in> set (tasks db)" "r_id r = task_id \<and> r_status r = ''pending''"
  then have ex: "\<exists>r \<in> set (tasks db). r_id r = task_id \<and> r_status r = ''pending''" by blast
  have one: "mark_completed e task_id db = (Inr True, ?db1)"
    unfolding first using ex by simp
  have ok1: "table_ok ?db1"
    using mark_completed_table_ok[OF assms(2), of e task_id] unfolding one snd_conv .
  from r(2) have r1: "r_id r = task_id" and r2: "r_status r = ''pending''" by blast+
  have np: "\<forall>x \<in> set (tasks ?db1). r_id x = task_id \<longrightarrow> r_status x \<noteq> ''pending''"
    by (rule completed_rows_not_pending(1)[OF assms(2) r(1) r1 r2])
  have sel: "select_by_id task_id ?db1 = Some (completed_row e r)"
    by (rule completed_rows_not_pending(2)[OF assms(2) r(1) r1 r2])
  have later: "\<forall>e' \<in> set es. mark_completed e' task_id ?db1 = (Inr False, ?db1)"
    using assms(4) mark_completed_false[OF assms(1) ok1 _ np] by (simp add: list_all_iff)
  have rest: "repeat_calls (\<lambda>e. mark_completed e task_id) es ?db1 = (map (\<lambda>e. Inr False) es, ?db1)"
    by (rule repeat_calls_fixed) (use later in simp)
  show "fst (repeat_calls (\<lambda>e. mark_completed e task_id) (e # es) db) =
          Inr True # map (\<lambda>e. Inr False) es"
    unfolding repeat_calls_Cons one fst_conv snd_conv rest ..
  have "snd (repeat_calls (\<lambda>e. mark_completed e task_id) es' ?db1) = ?db1"
    by (rule repeat_calls_unchanged) (simp add: mark_completed_nothing_pending[OF np])
  then have "snd (repeat_calls (\<lambda>e. mark_completed e task_id) (e # es') db) = ?db1"
    unfolding repeat_calls_Cons one snd_conv .
  then show "select_by_id task_id (snd (repeat_calls (\<lambda>e. mark_completed e task_id) (e # es') db)) =
          Some (completed_row e r)"
    using sel by simp
qed


lemma mark_completed_once_witness:
  "fst (repeat_calls (\<lambda>e. mark_completed e 1)
          [\<lparr>database_path = '':memory:'', failing = [],
             now = \<lparr>year = 2025, month = 9, day = 30, hour = 8, minute = 30, second = 0\<rparr>, plan = id\<rparr>,
           \<lparr>database_path = '':memory:'', failing = [],
             now = \<lparr>year = 2025, month = 10, day = 1, hour = 9, minute = 0, second = 0\<rparr>, plan = id\<rparr>]
          \<lparr>tasks = [\<lparr>r_id = 1, r_description = ascii ''Buy groceries'', r_status = ''pending'',
                r_created_at = ''2025-09-29 12:00:00'', r_completed_at = None\<rparr>], seq = 1\<rparr>) =
     [Inr True, Inr False] \<and>
   select_by_id 1 (snd (repeat_calls (\<lambda>e. mark_completed e 1)
          [\<lparr>database_path = '':memory:'', failing = [],
             now = \<lparr>year = 2025, month = 9, day = 30, hour = 8, minute = 30, second = 0\<rparr>, plan = id\<rparr>,
           \<lparr>database_path = '':memory:'', failing = [Commit],
             now = \<lparr>year = 2025, month = 10, day = 1, hour = 9, minute = 0, second = 0\<rparr>, plan = id\<rparr>]
          \<lparr>tasks = [\<lparr>r_id = 1, r_description = ascii ''Buy groceries'', r_status = ''pending'',
                r_created_at = ''2025-09-29 12:00:00'', r_completed_at = None\<rparr>], seq = 1\<rparr>)) =
     Some \<lparr>r_id = 1, r_description = ascii ''Buy groceries'', r_status = ''completed'',
           r_created_at = ''2025-09-29 12:00:00'', r_completed_at = Some ''2025-09-30 08:30:00''\<rparr>"
proof -
  let ?e1 = "\<lparr>database_path = '':memory:'', failing = [],
             now = \<lparr>year = 2025, month = 9, day = 30, hour = 8, minute = 30, second = 0\<rparr>, plan = id\<rparr>"
  let ?e2 = "\<lparr>database_path = '':memory:'', failing = [],
             now = \<lparr>year = 2025, month = 10, day = 1, hour = 9, minute = 0, second = 0\<rparr>, plan = id\<rparr>"
  let ?e3 = "\<lparr>database_path = '':memory:'', failing = [Commit],
             now = \<lparr>year = 2025, month = 10, day = 1, hour = 9, minute = 0, second = 0\<rparr>, plan = id\<rparr>"
  let ?r = "\<lparr>r_id = 1, r_description = ascii ''Buy groceries'', r_status = ''pending'',
                r_created_at = ''2025-09-29 12:00:00'', r_completed_at = None\<rparr>"
  let ?before = "\<lparr>tasks = [?r], seq = 1\<rparr>"
  have 1: "in_int64 1" by (simp add: in_int64_def)
  have 2: "table_ok ?before" by code_simp
  have 3: "no_faults ?e1" by (simp add: no_faults_def)
  have 4: "list_all no_faults [?e2]" by (simp add: no_faults_def)
  have r: "?r \<in> set (tasks ?before)" by simp
  have c: "completed_row ?e1 ?r =
      \<lparr>r_id = 1, r_description = ascii ''Buy groceries'', r_status = ''completed'',
       r_created_at = ''2025-09-29 12:00:00'', r_completed_at = Some ''2025-09-30 08:30:00''\<rparr>"
    by code_simp
  from mark_completed_once[OF 1 2 3 4, of "[?e3]"]
  have "\<forall>r \<in> set (tasks ?before). r_id r = 1 \<and> r_status r = ''pending'' \<longrightarrow>
            fst (repeat_calls (\<lambda>e. mark_completed e 1) (?e1 # [?e2]) ?before) =
              Inr True # map (\<lambda>e. Inr False) [?e2] \<and>
            select_by_id 1 (snd (repeat_calls (\<lambda>e. mark_completed e 1) (?e1 # [?e3]) ?before)) =
              Some (completed_row ?e1 r)"
    by blast
  from bspec[OF this r] show ?thesis unfolding c by simp
qed

text \<open>
  For an id in the range of the engine's 64-bit INTEGER, on a table that satisfies the
  constraints and an engine without storage failure, \<open>delete_task\<close> removes the rows
  with that id, whatever their status, and returns true exactly when one row was removed;
  it returns false and changes nothing when no row has that id. For a task that exists,
  of any number of calls the first returns true and every later one false, and after the
  deletion \<open>get_task_by_id\<close> returns None and no task that \<open>get_all_tasks\<close>,
  \<open>get_pending_tasks\<close> or \<open>get_completed_tasks\<close> returns has that id.
\<close>

lemma delete_task_once:
  assumes "in_int64 task_id" and "table_ok db" and "no_faults e" and "list_all no_faults es"
    and "no_faults e'" and "plan_ok e'"
  shows "delete_task e task_id db =
           (Inr (length (filter (\<lambda>r. r_id r = task_id) (tasks db)) = 1),
            db\<lparr>tasks := filter (\<lambda>r. r_id r \<noteq> task_id) (tasks db)\<rparr>) \<and>
         ((\<forall>r \<in> set (tasks db). r_id r \<noteq> task_id) \<longrightarrow>
            delete_task e task_id db = (Inr False, db)) \<and>
         ((\<exists>r \<in> set (tasks db). r_id r = task_id) \<longrightarrow>
            fst (repeat_calls (\<lambda>e. delete_task e task_id) (e # es) db) =
              Inr True # map (\<lambda>e. Inr False) es \<and>
            get_task_by_id e' task_id (snd (delete_task e task_id db)) = Inr None \<and>
            (\<forall>ts. get_all_tasks e' (snd (delete_task e task_id db)) = Inr ts \<longrightarrow>
                    Some task_id \<notin> t_id ` set ts) \<and>
            (\<forall>ts. get_pending_tasks e' (snd (delete_task e task_id db)) = Inr ts \<longrightarrow>
                    Some task_id \<notin> t_id ` set ts) \<and>
            (\<forall>ts. get_completed_tasks e' (snd (delete_task e task_id db)) = Inr ts \<longrightarrow>
                    Some task_id \<notin> t_id ` set ts))"
proof (intro conjI impI allI)
  let ?db1 = "db\<lparr>tasks := filter (\<lambda>r. r_id r \<noteq> task_id) (tasks db)\<rparr>"
  have d: "distinct (map r_id (tasks db))" using assms(2) by (simp add: table_ok_def)
  note first = delete_task_ok[OF assms(1-3)]
  have cnt: "(length (filter (\<lambda>r. r_id r = task_id) (tasks db)) = Suc 0) =
               (\<exists>r \<in> set (tasks db). r_id r = task_id)"
    using distinct_filter_id_one[OF d, of task_id "\<lambda>r. True"] by simp
  show "delete_task e task_id db =
          (Inr (length (filter (\<lambda>r. r_id r = task_id) (tasks db)) = 1), ?db1)"
    unfolding first by (simp add: cnt)
  show "delete_task e task_id db = (Inr False, db)"
    if "\<forall>r \<in> set (tasks db). r_id r \<noteq> task_id"
    using delete_task_false[OF assms(1-3) that] .
  have snd1: "snd (delete_task e task_id db) = ?db1" unfolding first snd_conv ..
  have gone: "\<forall>r \<in> set (tasks ?db1). r_id r \<noteq> task_id" by simp
  have ok1: "table_ok ?db1"
    using delete_task_table_ok[OF assms(2), of e task_id] unfolding snd1 .
  {
    assume ex: "\<exists>r \<in> set (tasks db). r_id r = task_id"
    have one: "delete_task e task_id db = (Inr True, ?db1)"
      unfolding first using ex by simp
    have later: "\<forall>e' \<in> set es. delete_task e' task_id ?db1 = (Inr False, ?db1)"
    proof
      fix x assume "x \<in> set es"
      then have "no_faults x" using assms(4) by (simp add: list_all_iff)
      from delete_task_false[OF assms(1) ok1 this gone]
      show "delete_task x task_id ?db1 = (Inr False, ?db1)" .
    qed
    have rest: "repeat_calls (\<lambda>e. delete_task e task_id) es ?db1 = (map (\<lambda>e. Inr False) es, ?db1)"
      by (rule repeat_calls_fixed) (use later in simp)
    show "fst (repeat_calls (\<lambda>e. delete_task e task_id) (e # es) db) =
            Inr True # map (\<lambda>e. Inr False) es"
      unfolding repeat_calls_Cons one fst_conv snd_conv rest ..
  }
  show "get_task_by_id e' task_id (snd (delete_task e task_id db)) = Inr None"
    unfolding snd1 get_task_by_id_def
    by (simp add: no_faults_simps[OF assms(5)] bind_int_ok[OF assms(1)] select_by_id_None[OF gone])
  show "Some task_id \<notin> t_id ` set ts"
    if "get_all_tasks e' (snd (delete_task e task_id db)) = Inr ts" for ts
    using listed_task_id[OF assms(6) get_all_tasks_rows[OF that[unfolded snd1]] gone] .
  show "Some task_id \<notin> t_id ` set ts"
    if "get_pending_tasks e' (snd (delete_task e task_id db)) = Inr ts" for ts
    using listed_task_id[OF assms(6) get_pending_tasks_rows[OF that[unfolded snd1]] gone] .
  show "Some task_id \<notin> t_id ` set ts"
    if "get_completed_tasks e' (snd (delete_task e task_id db)) = Inr ts" for ts
    using listed_task_id[OF assms(6) get_completed_tasks_rows[OF that[unfolded snd1]] gone] .
qed


lemma delete_task_once_witness:
  "fst (repeat_calls (\<lambda>e. delete_task e 1)
          [\<lparr>database_path = ''tasks.db'', failing = [],
             now = \<lparr>year = 2025, month = 10, day = 1, hour = 9, minute = 0, second = 0\<rparr>, plan = id\<rparr>,
           \<lparr>database_path = ''tasks.db'', failing = [],
             now = \<lparr>year = 2025, month = 10, day = 1, hour = 9, minute = 0, second = 5\<rparr>, plan = id\<rparr>]
          \<lparr>tasks = [\<lparr>r_id = 1, r_description = ascii ''Buy groceries'', r_status = ''completed'',
                      r_created_at = ''2025-09-29 12:00:00'',
                      r_completed_at = Some ''2025-09-30 08:30:00''\<rparr>,
                   \<lparr>r_id = 2, r_description = ascii ''Call mom'', r_status = ''pending'',
                      r_created_at = ''2025-09-29 12:00:07'', r_completed_at = None\<rparr>],
            seq = 2\<rparr>) = [Inr True, Inr False] \<and>
   get_task_by_id \<lparr>database_path = ''tasks.db'', failing = [],
             now = \<lparr>year = 2025, month = 10, day = 1, hour = 9, minute = 0, second = 9\<rparr>, plan = rev\<rparr> 1
      (snd (delete_task \<lparr>database_path = ''tasks.db'', failing = [],
             now = \<lparr>year = 2025, month = 10, day = 1, hour = 9, minute = 0, second = 0\<rparr>, plan = id\<rparr> 1
          \<lparr>tasks = [\<lparr>r_id = 1, r_description = ascii ''Buy groceries'', r_status = ''completed'',
                      r_created_at = ''2025-09-29 12:00:00'',
                      r_completed_at = Some ''2025-09-30 08:30:00''\<rparr>,
                   \<lparr>r_id = 2, r_description = ascii ''Call mom'', r_status = ''pending'',
                      r_created_at = ''2025-09-29 12:00:07'', r_completed_at = None\<rparr>],
            seq = 2\<rparr>)) = Inr None \<and>
   Some 1 \<notin> t_id ` set [\<lparr>t_id = Some 2, t_description = ascii ''Call mom'', t_status = ''pending'',
          t_created_at = \<lparr>year = 2025, month = 9, day = 29, hour = 12, minute = 0, second = 7\<rparr>,
          t_completed_at = None\<rparr>]"
proof -
  let ?e1 = "\<lparr>database_path = ''tasks.db'', failing = [],
             now = \<lparr>year = 2025, month = 10, day = 1, hour = 9, minute = 0, second = 0\<rparr>, plan = id\<rparr>"
  let ?e2 = "\<lparr>database_path = ''tasks.db'', failing = [],
             now = \<lparr>year = 2025, month = 10, day = 1, hour = 9, minute = 0, second = 5\<rparr>, plan = id\<rparr>"
  let ?q = "\<lparr>database_path = ''tasks.db'', failing = [],
             now = \<lparr>year = 2025, month = 10, day = 1, hour = 9, minute = 0, second = 9\<rparr>, plan = rev\<rparr>"
  let ?before = "\<lparr>tasks = [\<lparr>r_id = 1, r_description = ascii ''Buy groceries'', r_status = ''completed'',
                      r_created_at = ''2025-09-29 12:00:00'',
                      r_completed_at = Some ''2025-09-30 08:30:00''\<rparr>,
                   \<lparr>r_id = 2, r_description = ascii ''Call mom'', r_status = ''pending'',
                      r_created_at = ''2025-09-29 12:00:07'', r_completed_at = None\<rparr>],
            seq = 2\<rparr>"
  let ?t = "\<lparr>t_id = Some 2, t_description = ascii ''Call mom'', t_status = ''pending'',
          t_created_at = \<lparr>year = 2025, month = 9, day = 29, hour = 12, minute = 0, second = 7\<rparr>,
          t_completed_at = None\<rparr>"
  have 1: "in_int64 1" by (simp add: in_int64_def)
  have 2: "table_ok ?before" by code_simp
  have 3: "no_faults ?e1" by (simp add: no_faults_def)
  have 4: "list_all no_faults [?e2]" by (simp add: no_faults_def)
  have 5: "no_faults ?q" by (simp add: no_faults_def)
  have 6: "plan_ok ?q" by (simp add: plan_ok_def)
  have ex: "\<exists>r \<in> set (tasks ?before). r_id r = 1" by simp
  have q: "get_all_tasks ?q (snd (delete_task ?e1 1 ?before)) = Inr [?t]" by code_simp
  from delete_task_once[OF 1 2 3 4 5 6] ex
  have a: "fst (repeat_calls (\<lambda>e. delete_task e 1) (?e1 # [?e2]) ?before) =
              Inr True # map (\<lambda>e. Inr False) [?e2]"
    and b: "get_task_by_id ?q 1 (snd (delete_task ?e1 1 ?before)) = Inr None"
    and c: "\<forall>ts. get_all_tasks ?q (snd (delete_task ?e1 1 ?before)) = Inr ts \<longrightarrow>
                    Some 1 \<notin> t_id ` set ts"
    by blast+
  from c q have "Some 1 \<notin> t_id ` set [?t]" by blast
  with a b show ?thesis by simp
qed

subsection \<open>Query results are newest first\<close>











section \<open>The claims\<close>

text \<open>
  C4: for every description that is null, empty or made of whitespace only,
  \<open>create_task\<close> raises the validation error and leaves the stored database as it was,
  whatever the state of the storage engine (the check comes before the connection is
  taken, so even an engine on which every call fails is not reached): no row is
  persisted, and \<open>get_all_tasks\<close> and the number of rows are unchanged.
\<close>

theorem create_task_blank_rejected:
  assumes "description = None \<or>
           (\<exists>d. description = Some d \<and> (d = [] \<or> (\<forall>c \<in> set d. py_isspace c)))"
  shows "fst (create_task e description db) = Inl (ValueError ''Description cannot be empty'') \<and>
         (\<exists>x. fst (create_task e description db) = Inl x \<and> is_validation_error x) \<and>
         snd (create_task e description db) = db \<and>
         get_all_tasks e' (snd (create_task e description db)) = get_all_tasks e' db \<and>
         length (tasks (snd (create_task e description db))) = length (tasks db)"
  by (simp add: create_task_blank[OF assms])

theorem create_task_blank_rejected_witness:
  "fst (create_task \<lparr>database_path = ''tasks.db'', failing = [Connect, Execute 0, Execute 1, Commit],
              now = \<lparr>year = 2025, month = 9, day = 29, hour = 12, minute = 0, second = 0\<rparr>,
              plan = id\<rparr> (Some (ascii ''   '')) empty_database) =
     Inl (ValueError ''Description cannot be empty'') \<and>
   (\<exists>x. fst (create_task \<lparr>database_path = ''tasks.db'', failing = [Connect, Execute 0, Execute 1, Commit],
              now = \<lparr>year = 2025, month = 9, day = 29, hour = 12, minute = 0, second = 0\<rparr>,
              plan = id\<rparr> (Some (ascii ''   '')) empty_database) = Inl x \<and> is_validation_error x) \<and>
   snd (create_task \<lparr>database_path = ''tasks.db'', failing = [Connect, Execute 0, Execute 1, Commit],
              now = \<lparr>year = 2025, month = 9, day = 29, hour = 12, minute = 0, second = 0\<rparr>,
              plan = id\<rparr> (Some (ascii ''   '')) empty_database) = empty_database"
  using create_task_blank_rejected[of "Some (ascii ''   '')" "\<lparr>database_path = ''tasks.db'', failing = [Connect, Execute 0, Execute 1, Commit],
              now = \<lparr>year = 2025, month = 9, day = 29, hour = 12, minute = 0, second = 0\<rparr>,
              plan = id\<rparr>" empty_database]
  by (simp add: py_isspace_def ascii_def)

text \<open>
  C3: \<open>create_task\<close> does not store every description that is non-empty after
  trimming. Its validation lets through texts that the insert then refuses, and no row is
  written. A description holding a lone surrogate (here the single code point
  \<open>0xD800\<close>) cannot be bound as a statement parameter: \<open>UnicodeEncodeError\<close> passes
  the \<open>except sqlite3.Error\<close> handler and reaches the caller. A description that begins
  with a NUL character (here the single code point 0) fails the table's check
  \<open>length(description) > 0\<close>, and the caller gets \<open>RuntimeError\<close>. Both descriptions
  are non-empty after trimming, and the engine is healthy.
\<close>

theorem create_task_refuses_nonblank_description:
  "strip [55296] \<noteq> [] \<and>
   create_task \<lparr>database_path = '':memory:'', failing = [],
       now = \<lparr>year = 2025, month = 9, day = 30, hour = 8, minute = 30, second = 0\<rparr>, plan = id\<rparr>
     (Some [55296]) empty_database =
     (Inl (UnicodeEncodeError ''surrogates not allowed''), empty_database) \<and>
   strip [0] \<noteq> [] \<and>
   create_task \<lparr>database_path = '':memory:'', failing = [],
       now = \<lparr>year = 2025, month = 9, day = 30, hour = 8, minute = 30, second = 0\<rparr>, plan = id\<rparr>
     (Some [0]) empty_database =
     (Inl (RuntimeError ''Failed to create task: CHECK constraint failed''), empty_database)"
  by code_simp

text \<open>
  C10: whenever \<open>create_task\<close> returns a task, that task carries an id, and
  \<open>get_task_by_id\<close> with that id, on the database \<open>create_task\<close> left and on an engine
  without storage failure, returns the very same task: the timestamp parsed by
  \<open>fromisoformat\<close> in \<open>create_task\<close> and the one parsed by \<open>_row_to_task\<close> agree.
\<close>

theorem create_then_get_task_by_id:
  assumes "create_task e description db = (Inr t, db')" and "no_faults e'"
  shows "\<exists>i. t_id t = Some i \<and> get_task_by_id e' i db' = Inr (Some t)"
  by (rule get_task_by_id_after_create[OF assms])

theorem create_then_get_task_by_id_witness:
  "get_task_by_id \<lparr>database_path = ''tasks.db'', failing = [],
          now = \<lparr>year = 2025, month = 9, day = 30, hour = 8, minute = 30, second = 0\<rparr>, plan = id\<rparr> 1
         \<lparr>tasks = [\<lparr>r_id = 1, r_description = ascii ''Buy groceries'', r_status = ''pending'',
                r_created_at = ''2025-09-29 12:00:00'', r_completed_at = None\<rparr>], seq = 1\<rparr> =
       Inr (Some \<lparr>t_id = Some 1, t_description = ascii ''Buy groceries'', t_status = ''pending'',
          t_created_at = \<lparr>year = 2025, month = 9, day = 29, hour = 12, minute = 0, second = 0\<rparr>,
          t_completed_at = None\<rparr>)"
proof -
  have c: "create_task \<lparr>database_path = '':memory:'', failing = [],
      now = \<lparr>year = 2025, month = 9, day = 29, hour = 12, minute = 0, second = 0\<rparr>, plan = id\<rparr>
      (Some (ascii ''  Buy groceries '')) empty_database =
    (Inr \<lparr>t_id = Some 1, t_description = ascii ''Buy groceries'', t_status = ''pending'',
          t_created_at = \<lparr>year = 2025, month = 9, day = 29, hour = 12, minute = 0, second = 0\<rparr>,
          t_completed_at = None\<rparr>,
     \<lparr>tasks = [\<lparr>r_id = 1, r_description = ascii ''Buy groceries'', r_status = ''pending'',
                r_created_at = ''2025-09-29 12:00:00'', r_completed_at = None\<rparr>], seq = 1\<rparr>)"
    by code_simp
  have n: "no_faults \<lparr>database_path = ''tasks.db'', failing = [],
          now = \<lparr>year = 2025, month = 9, day = 30, hour = 8, minute = 30, second = 0\<rparr>, plan = id\<rparr>"
    by (simp add: no_faults_def)
  from create_then_get_task_by_id[OF c n] show ?thesis by simp
qed

text \<open>
  C1: status = pending holds exactly when completed_at is null, in storage and in every
  task a query returns. The engine enforces it: every INSERT and every UPDATE it accepts,
  with whatever values (also a write that does not come from the repository), leaves a
  table that satisfies the constraints; every database the repository reaches satisfies
  them; in a table that satisfies them every row has status pending exactly when its
  completed_at is null; and every task returned by \<open>get_all_tasks\<close>,
  \<open>get_pending_tasks\<close>, \<open>get_completed_tasks\<close> and \<open>get_task_by_id\<close> on such a table
  has status pending exactly when its completed_at is None.
\<close>

theorem pending_iff_not_completed:
  "(table_ok db \<and> sql_insert rowid description status created_at completed_at db = Inr (i, db1)
      \<longrightarrow> table_ok db1) \<and>
   (table_ok db \<and> sql_update cond set_cols db = Inr (n, db2) \<longrightarrow> table_ok db2) \<and>
   (reachable db \<longrightarrow> table_ok db) \<and>
   (table_ok db \<longrightarrow> (\<forall>r \<in> set (tasks db). (r_status r = ''pending'') = (r_completed_at r = None))) \<and>
   (table_ok db \<and> plan_ok e \<and> get_all_tasks e db = Inr ts \<and> t \<in> set ts
      \<longrightarrow> (t_status t = ''pending'') = (t_completed_at t = None)) \<and>
   (table_ok db \<and> plan_ok e \<and> get_pending_tasks e db = Inr ts \<and> t \<in> set ts
      \<longrightarrow> (t_status t = ''pending'') = (t_completed_at t = None)) \<and>
   (table_ok db \<and> plan_ok e \<and> get_completed_tasks e db = Inr ts \<and> t \<in> set ts
      \<longrightarrow> (t_status t = ''pending'') = (t_completed_at t = None)) \<and>
   (table_ok db \<and> get_task_by_id e task_id db = Inr (Some t)
      \<longrightarrow> (t_status t = ''pending'') = (t_completed_at t = None))"
proof (intro conjI impI)
  show "table_ok db1"
    if "table_ok db \<and> sql_insert rowid description status created_at completed_at db = Inr (i, db1)"
    using that sql_insert_table_ok by blast
  show "table_ok db2" if "table_ok db \<and> sql_update cond set_cols db = Inr (n, db2)"
    using that sql_update_table_ok[of cond set_cols db n db2] by (simp add: table_ok_def)
  show "table_ok db" if "reachable db"
    using that by (rule reachable_table_ok)
  show "\<forall>r \<in> set (tasks db). (r_status r = ''pending'') = (r_completed_at r = None)" if "table_ok db"
    using table_ok_rows[OF that] check_constraints_invariant by blast
  show "(t_status t = ''pending'') = (t_completed_at t = None)"
    if "table_ok db \<and> plan_ok e \<and> get_all_tasks e db = Inr ts \<and> t \<in> set ts"
    using that get_all_tasks_invariant by blast
  show "(t_status t = ''pending'') = (t_completed_at t = None)"
    if "table_ok db \<and> plan_ok e \<and> get_pending_tasks e db = Inr ts \<and> t \<in> set ts"
    using that get_pending_tasks_invariant by blast
  show "(t_status t = ''pending'') = (t_completed_at t = None)"
    if "table_ok db \<and> plan_ok e \<and> get_completed_tasks e db = Inr ts \<and> t \<in> set ts"
    using that get_completed_tasks_invariant by blast
  show "(t_status t = ''pending'') = (t_completed_at t = None)"
    if "table_ok db \<and> get_task_by_id e task_id db = Inr (Some t)"
    using that get_task_by_id_invariant by blast
qed

theorem pending_iff_not_completed_witness:
  "table_ok \<lparr>tasks = [\<lparr>r_id = 1, r_description = ascii ''Buy groceries'', r_status = ''completed'',
                r_created_at = ''2025-09-29 12:00:00'',
                r_completed_at = Some ''2025-09-30 08:30:00''\<rparr>], seq = 1\<rparr> \<and>
   (t_status \<lparr>t_id = Some 1, t_description = ascii ''Buy groceries'', t_status = ''completed'',
          t_created_at = \<lparr>year = 2025, month = 9, day = 29, hour = 12, minute = 0, second = 0\<rparr>,
          t_completed_at = Some \<lparr>year = 2025, month = 9, day = 30, hour = 8, minute = 30, second = 0\<rparr>\<rparr>
      = ''pending'') =
   (t_completed_at \<lparr>t_id = Some 1, t_description = ascii ''Buy groceries'', t_status = ''completed'',
          t_created_at = \<lparr>year = 2025, month = 9, day = 29, hour = 12, minute = 0, second = 0\<rparr>,
          t_completed_at = Some \<lparr>year = 2025, month = 9, day = 30, hour = 8, minute = 30, second = 0\<rparr>\<rparr>
      = None)"
proof -
  let ?e = "\<lparr>database_path = '':memory:'', failing = [],
      now = \<lparr>year = 2025, month = 9, day = 30, hour = 8, minute = 30, second = 0\<rparr>, plan = id\<rparr>"
  let ?before = "\<lparr>tasks = [\<lparr>r_id = 1, r_description = ascii ''Buy groceries'', r_status = ''pending'',
                r_created_at = ''2025-09-29 12:00:00'', r_completed_at = None\<rparr>], seq = 1\<rparr>"
  let ?db = "\<lparr>tasks = [\<lparr>r_id = 1, r_description = ascii ''Buy groceries'', r_status = ''completed'',
                r_created_at = ''2025-09-29 12:00:00'',
                r_completed_at = Some ''2025-09-30 08:30:00''\<rparr>], seq = 1\<rparr>"
  let ?t = "\<lparr>t_id = Some 1, t_description = ascii ''Buy groceries'', t_status = ''completed'',
          t_created_at = \<lparr>year = 2025, month = 9, day = 29, hour = 12, minute = 0, second = 0\<rparr>,
          t_completed_at = Some \<lparr>year = 2025, month = 9, day = 30, hour = 8, minute = 30, second = 0\<rparr>\<rparr>"
  have ok0: "table_ok ?before" by code_simp
  have upd: "sql_update (\<lambda>r. r_id r = 1 \<and> r_status r = ''pending'') (completed_row ?e) ?before = Inr (Suc 0, ?db)"
    by code_simp
  have q: "get_all_tasks ?e ?db = Inr [?t]" by code_simp
  have p: "plan_ok ?e" by (simp add: plan_ok_def)
  note inst = pending_iff_not_completed[of ?before _ _ _ _ _ _ _ "\<lambda>r. r_id r = 1 \<and> r_status r = ''pending''"
      "completed_row ?e" "Suc 0" ?db]
  have ok: "table_ok ?db" using inst ok0 upd by blast
  have "(t_status ?t = ''pending'') = (t_completed_at ?t = None)"
    using pending_iff_not_completed[of ?db _ _ _ _ _ _ _ _ _ _ _ ?e "[?t]" ?t] ok p q by simp
  with ok show ?thesis by blast
qed

text \<open>
  C2: \<open>mark_completed\<close> does not return false for every id that does not exist. The
  id \<open>2^63\<close> is one more than the largest INTEGER of the engine, so no row has it; binding it
  as the statement's parameter raises \<open>OverflowError\<close>, which passes the
  \<open>except sqlite3.Error\<close> handler and reaches the caller. The table is left as it was.
\<close>

theorem mark_completed_raises_on_absent_id:
  "select_by_id 9223372036854775808
     \<lparr>tasks = [\<lparr>r_id = 1, r_description = ascii ''Buy groceries'', r_status = ''pending'',
                 r_created_at = ''2025-09-29 12:00:00'', r_completed_at = None\<rparr>], seq = 1\<rparr> = None \<and>
   mark_completed \<lparr>database_path = '':memory:'', failing = [],
       now = \<lparr>year = 2025, month = 9, day = 30, hour = 8, minute = 30, second = 0\<rparr>, plan = id\<rparr>
     9223372036854775808
     \<lparr>tasks = [\<lparr>r_id = 1, r_description = ascii ''Buy groceries'', r_status = ''pending'',
                 r_created_at = ''2025-09-29 12:00:00'', r_completed_at = None\<rparr>], seq = 1\<rparr> =
   (Inl (OverflowError ''Python int too large to convert to SQLite INTEGER''),
     \<lparr>tasks = [\<lparr>r_id = 1, r_description = ascii ''Buy groceries'', r_status = ''pending'',
                 r_created_at = ''2025-09-29 12:00:00'', r_completed_at = None\<rparr>], seq = 1\<rparr>)"
  by code_simp

text \<open>
  C5: \<open>delete_task\<close> does not return false for every id that matches no row. With the
  id \<open>2^63\<close>, which no row can have, binding the statement's parameter raises
  \<open>OverflowError\<close>, which passes the \<open>except sqlite3.Error\<close> handler and reaches the
  caller. The table is left as it was.
\<close>

theorem delete_task_raises_on_absent_id:
  "select_by_id 9223372036854775808
     \<lparr>tasks = [\<lparr>r_id = 1, r_description = ascii ''Buy groceries'', r_status = ''pending'',
                 r_created_at = ''2025-09-29 12:00:00'', r_completed_at = None\<rparr>], seq = 1\<rparr> = None \<and>
   delete_task \<lparr>database_path = '':memory:'', failing = [],
       now = \<lparr>year = 2025, month = 9, day = 30, hour = 8, minute = 30, second = 0\<rparr>, plan = id\<rparr>
     9223372036854775808
     \<lparr>tasks = [\<lparr>r_id = 1, r_description = ascii ''Buy groceries'', r_status = ''pending'',
                 r_created_at = ''2025-09-29 12:00:00'', r_completed_at = None\<rparr>], seq = 1\<rparr> =
   (Inl (OverflowError ''Python int too large to convert to SQLite INTEGER''),
     \<lparr>tasks = [\<lparr>r_id = 1, r_description = ascii ''Buy groceries'', r_status = ''pending'',
                 r_created_at = ''2025-09-29 12:00:00'', r_completed_at = None\<rparr>], seq = 1\<rparr>)"
  by code_simp

text \<open>
  C8: a storage failure in any operation reaches the caller as a storage error
  (\<open>RuntimeError\<close> from the handlers, \<open>sqlite3.Error\<close> from a connection that cannot be
  opened), which is an exception, so it is not the false or None of an absent task, and is
  never the validation error. A storage failure is a failing connection, statement or
  commit of the call, and for \<open>create_task\<close> also an INSERT the engine rejects (a
  constraint violation). A step fails where the call reaches it: the steps that follow
  the binding of the statement's parameter are reached with an id in the engine's range
  and with a description that has an encoding. The three operations that write return
  the stored database unchanged whenever they raise a storage error: the transaction was
  rolled back.
\<close>

theorem storage_failures_surface:
  "(strip d \<noteq> [] \<and>
      (storage_failure e [Connect, Execute 0] \<or>
       (\<not> list_ex is_surrogate (strip d) \<and>
        (storage_failure e [Execute 1, Commit] \<or>
         (\<exists>y. sql_insert None (strip d) ''pending'' (CURRENT_TIMESTAMP (now e)) None db = Inl y))))
     \<longrightarrow> (\<exists>x. create_task e (Some d) db = (Inl x, db) \<and> is_storage_error x)) \<and>
   (in_int64 task_id \<and> storage_failure e [Connect, Execute 0, Commit]
     \<longrightarrow> (\<exists>x. mark_completed e task_id db = (Inl x, db) \<and> is_storage_error x)) \<and>
   (in_int64 task_id \<and> storage_failure e [Connect, Execute 0, Commit]
     \<longrightarrow> (\<exists>x. delete_task e task_id db = (Inl x, db) \<and> is_storage_error x)) \<and>
   (storage_failure e [Connect, Execute 0]
     \<longrightarrow> (\<exists>x. get_all_tasks e db = Inl x \<and> is_storage_error x) \<and>
         (\<exists>x. get_pending_tasks e db = Inl x \<and> is_storage_error x) \<and>
         (\<exists>x. get_completed_tasks e db = Inl x \<and> is_storage_error x) \<and>
         (\<exists>x. get_task_by_id e task_id db = Inl x \<and> is_storage_error x)) \<and>
   (is_storage_error x \<longrightarrow> \<not> is_validation_error x) \<and>
   (create_task e description db = (Inl x, db') \<and> is_storage_error x \<longrightarrow> db' = db) \<and>
   (mark_completed e task_id db = (Inl x, db') \<and> is_storage_error x \<longrightarrow> db' = db) \<and>
   (delete_task e task_id db = (Inl x, db') \<and> is_storage_error x \<longrightarrow> db' = db)"
proof (intro conjI impI)
  show "\<exists>x. create_task e (Some d) db = (Inl x, db) \<and> is_storage_error x"
    if "strip d \<noteq> [] \<and>
      (storage_failure e [Connect, Execute 0] \<or>
       (\<not> list_ex is_surrogate (strip d) \<and>
        (storage_failure e [Execute 1, Commit] \<or>
         (\<exists>y. sql_insert None (strip d) ''pending'' (CURRENT_TIMESTAMP (now e)) None db = Inl y))))"
    using that create_task_storage_failure by blast
  show "\<exists>x. mark_completed e task_id db = (Inl x, db) \<and> is_storage_error x"
    if "in_int64 task_id \<and> storage_failure e [Connect, Execute 0, Commit]"
    using that mark_completed_storage_failure by blast
  show "\<exists>x. delete_task e task_id db = (Inl x, db) \<and> is_storage_error x"
    if "in_int64 task_id \<and> storage_failure e [Connect, Execute 0, Commit]"
    using that delete_task_storage_failure by blast
  show "\<exists>x. get_all_tasks e db = Inl x \<and> is_storage_error x"
    if "storage_failure e [Connect, Execute 0]"
    using that by (rule query_storage_failure(1))
  show "\<exists>x. get_pending_tasks e db = Inl x \<and> is_storage_error x"
    if "storage_failure e [Connect, Execute 0]"
    using that by (rule query_storage_failure(2))
  show "\<exists>x. get_completed_tasks e db = Inl x \<and> is_storage_error x"
    if "storage_failure e [Connect, Execute 0]"
    using that by (rule query_storage_failure(3))
  show "\<exists>x. get_task_by_id e task_id db = Inl x \<and> is_storage_error x"
    if "storage_failure e [Connect, Execute 0]"
    using that by (rule query_storage_failure(4))
  show "\<not> is_validation_error x" if "is_storage_error x"
    using that by (rule storage_not_validation)
  show "db' = db" if "create_task e description db = (Inl x, db') \<and> is_storage_error x"
    using that create_task_error_unchanged by blast
  show "db' = db" if "mark_completed e task_id db = (Inl x, db') \<and> is_storage_error x"
    using that mark_completed_error_unchanged by blast
  show "db' = db" if "delete_task e task_id db = (Inl x, db') \<and> is_storage_error x"
    using that delete_task_error_unchanged by blast
qed

theorem storage_failures_surface_witness:
  "(\<exists>x. create_task \<lparr>database_path = ''tasks.db'', failing = [Commit],
             now = \<lparr>year = 2025, month = 10, day = 1, hour = 9, minute = 0, second = 0\<rparr>, plan = id\<rparr>
          (Some (ascii ''Call mom''))
          \<lparr>tasks = [\<lparr>r_id = 1, r_description = ascii ''Buy groceries'', r_status = ''pending'',
                      r_created_at = ''2025-09-29 12:00:00'', r_completed_at = None\<rparr>], seq = 1\<rparr> =
        (Inl x, \<lparr>tasks = [\<lparr>r_id = 1, r_description = ascii ''Buy groceries'', r_status = ''pending'',
                      r_created_at = ''2025-09-29 12:00:00'', r_completed_at = None\<rparr>], seq = 1\<rparr>) \<and>
        is_storage_error x) \<and>
   (\<exists>x. mark_completed \<lparr>database_path = ''tasks.db'', failing = [Commit],
             now = \<lparr>year = 2025, month = 10, day = 1, hour = 9, minute = 0, second = 0\<rparr>, plan = id\<rparr> 1
          \<lparr>tasks = [\<lparr>r_id = 1, r_description = ascii ''Buy groceries'', r_status = ''pending'',
                      r_created_at = ''2025-09-29 12:00:00'', r_completed_at = None\<rparr>], seq = 1\<rparr> =
        (Inl x, \<lparr>tasks = [\<lparr>r_id = 1, r_description = ascii ''Buy groceries'', r_status = ''pending'',
                      r_created_at = ''2025-09-29 12:00:00'', r_completed_at = None\<rparr>], seq = 1\<rparr>) \<and>
        is_storage_error x)"
proof -
  let ?e = "\<lparr>database_path = ''tasks.db'', failing = [Commit],
             now = \<lparr>year = 2025, month = 10, day = 1, hour = 9, minute = 0, second = 0\<rparr>, plan = id\<rparr>"
  let ?stored = "\<lparr>tasks = [\<lparr>r_id = 1, r_description = ascii ''Buy groceries'', r_status = ''pending'',
                      r_created_at = ''2025-09-29 12:00:00'', r_completed_at = None\<rparr>], seq = 1\<rparr>"
  have 1: "strip (ascii ''Call mom'') \<noteq> []" by code_simp
  have 2: "storage_failure ?e [Execute 1, Commit]" by code_simp
  have s: "\<not> list_ex is_surrogate (strip (ascii ''Call mom''))" by code_simp
  have 3: "storage_failure ?e [Connect, Execute 0, Commit]" by code_simp
  have 4: "in_int64 1" by (simp add: in_int64_def)
  note inst = storage_failures_surface[of "ascii ''Call mom''" ?e ?stored 1]
  have a: "\<exists>x. create_task ?e (Some (ascii ''Call mom'')) ?stored = (Inl x, ?stored) \<and> is_storage_error x"
    using inst 1 2 s by blast
  have b: "\<exists>x. mark_completed ?e 1 ?stored = (Inl x, ?stored) \<and> is_storage_error x"
    using inst 3 4 by blast
  from a b show ?thesis by blast
qed

text \<open>
  C7: in every database the repository can reach, on an engine without storage failure,
  the three list queries return, and the tasks of \<open>get_pending_tasks\<close> together with
  those of \<open>get_completed_tasks\<close> are the tasks of \<open>get_all_tasks\<close>, with no task in both.
\<close>

theorem pending_and_completed_partition_all:
  assumes "reachable db"
    and "no_faults e1" and "plan_ok e1" and "no_faults e2" and "plan_ok e2"
    and "no_faults e3" and "plan_ok e3"
  shows "\<exists>all pending completed.
           get_all_tasks e1 db = Inr all \<and> get_pending_tasks e2 db = Inr pending \<and>
           get_completed_tasks e3 db = Inr completed \<and>
           set pending \<union> set completed = set all \<and> set pending \<inter> set completed = {}"
proof -
  have inv: "repo_inv db" using assms(1) by (rule reachable_repo_inv)
  from get_all_tasks_set[OF inv assms(3,2)] obtain a where
    a: "get_all_tasks e1 db = Inr a" "set a = {t. \<exists>r \<in> set (tasks db). row_to_task r = Inr t}"
    by blast
  from get_pending_tasks_set[OF inv assms(5,4)] obtain p where
    p: "get_pending_tasks e2 db = Inr p"
       "set p = {t. \<exists>r \<in> set (tasks db). r_status r = ''pending'' \<and> row_to_task r = Inr t}"
    by blast
  from get_completed_tasks_set[OF inv assms(7,6)] obtain c where
    c: "get_completed_tasks e3 db = Inr c"
       "set c = {t. \<exists>r \<in> set (tasks db). r_status r = ''completed'' \<and> row_to_task r = Inr t}"
    by blast
  have st: "r_status r = ''pending'' \<or> r_status r = ''completed''" if "r \<in> set (tasks db)" for r
    using inv that by (simp add: repo_inv_def table_ok_def list_all_iff check_constraints_def)
  have u: "set p \<union> set c = set a"
    unfolding a(2) p(2) c(2) using st by blast
  have "t \<notin> set c" if "t \<in> set p" for t
  proof
    assume "t \<in> set c"
    with that obtain r r' where "r_status r = ''pending''" "row_to_task r = Inr t"
      "r_status r' = ''completed''" "row_to_task r' = Inr t"
      unfolding p(2) c(2) by blast
    then have "t_status t = ''pending''" "t_status t = ''completed''"
      using row_to_task_fields(2) by metis+
    then show False by simp
  qed
  then have "set p \<inter> set c = {}" by blast
  with a(1) p(1) c(1) u show ?thesis by blast
qed


theorem pending_and_completed_partition_all_witness:
  "get_all_tasks \<lparr>database_path = '':memory:'', failing = [],
        now = \<lparr>year = 2025, month = 10, day = 1, hour = 9, minute = 0, second = 0\<rparr>, plan = rev\<rparr> \<lparr>tasks = [\<lparr>r_id = 1, r_description = ascii ''Buy groceries'', r_status = ''completed'',
                 r_created_at = ''2025-09-29 12:00:00'',
                 r_completed_at = Some ''2025-09-30 08:30:00''\<rparr>,
              \<lparr>r_id = 2, r_description = ascii ''Call mom'', r_status = ''pending'',
                 r_created_at = ''2025-09-29 12:00:07'', r_completed_at = None\<rparr>],
       seq = 2\<rparr> = Inr [\<lparr>t_id = Some 2, t_description = ascii ''Call mom'', t_status = ''pending'',
        t_created_at = \<lparr>year = 2025, month = 9, day = 29, hour = 12, minute = 0, second = 7\<rparr>,
        t_completed_at = None\<rparr>, \<lparr>t_id = Some 1, t_description = ascii ''Buy groceries'', t_status = ''completed'',
        t_created_at = \<lparr>year = 2025, month = 9, day = 29, hour = 12, minute = 0, second = 0\<rparr>,
        t_completed_at = Some \<lparr>year = 2025, month = 9, day = 30, hour = 8, minute = 30, second = 0\<rparr>\<rparr>] \<and>
   get_pending_tasks \<lparr>database_path = '':memory:'', failing = [],
        now = \<lparr>year = 2025, month = 10, day = 1, hour = 9, minute = 0, second = 0\<rparr>, plan = rev\<rparr> \<lparr>tasks = [\<lparr>r_id = 1, r_description = ascii ''Buy groceries'', r_status = ''completed'',
                 r_created_at = ''2025-09-29 12:00:00'',
                 r_completed_at = Some ''2025-09-30 08:30:00''\<rparr>,
              \<lparr>r_id = 2, r_description = ascii ''Call mom'', r_status = ''pending'',
                 r_created_at = ''2025-09-29 12:00:07'', r_completed_at = None\<rparr>],
       seq = 2\<rparr> = Inr [\<lparr>t_id = Some 2, t_description = ascii ''Call mom'', t_status = ''pending'',
        t_created_at = \<lparr>year = 2025, month = 9, day = 29, hour = 12, minute = 0, second = 7\<rparr>,
        t_completed_at = None\<rparr>] \<and>
   get_completed_tasks \<lparr>database_path = '':memory:'', failing = [],
        now = \<lparr>year = 2025, month = 10, day = 1, hour = 9, minute = 0, second = 0\<rparr>, plan = rev\<rparr> \<lparr>tasks = [\<lparr>r_id = 1, r_description = ascii ''Buy groceries'', r_status = ''completed'',
                 r_created_at = ''2025-09-29 12:00:00'',
                 r_completed_at = Some ''2025-09-30 08:30:00''\<rparr>,
              \<lparr>r_id = 2, r_description = ascii ''Call mom'', r_status = ''pending'',
                 r_created_at = ''2025-09-29 12:00:07'', r_completed_at = None\<rparr>],
       seq = 2\<rparr> = Inr [\<lparr>t_id = Some 1, t_description = ascii ''Buy groceries'', t_status = ''completed'',
        t_created_at = \<lparr>year = 2025, month = 9, day = 29, hour = 12, minute = 0, second = 0\<rparr>,
        t_completed_at = Some \<lparr>year = 2025, month = 9, day = 30, hour = 8, minute = 30, second = 0\<rparr>\<rparr>] \<and>
   set [\<lparr>t_id = Some 2, t_description = ascii ''Call mom'', t_status = ''pending'',
        t_created_at = \<lparr>year = 2025, month = 9, day = 29, hour = 12, minute = 0, second = 7\<rparr>,
        t_completed_at = None\<rparr>] \<union> set [\<lparr>t_id = Some 1, t_description = ascii ''Buy groceries'', t_status = ''completed'',
        t_created_at = \<lparr>year = 2025, month = 9, day = 29, hour = 12, minute = 0, second = 0\<rparr>,
        t_completed_at = Some \<lparr>year = 2025, month = 9, day = 30, hour = 8, minute = 30, second = 0\<rparr>\<rparr>] = set [\<lparr>t_id = Some 2, t_description = ascii ''Call mom'', t_status = ''pending'',
        t_created_at = \<lparr>year = 2025, month = 9, day = 29, hour = 12, minute = 0, second = 7\<rparr>,
        t_completed_at = None\<rparr>, \<lparr>t_id = Some 1, t_description = ascii ''Buy groceries'', t_status = ''completed'',
        t_created_at = \<lparr>year = 2025, month = 9, day = 29, hour = 12, minute = 0, second = 0\<rparr>,
        t_completed_at = Some \<lparr>year = 2025, month = 9, day = 30, hour = 8, minute = 30, second = 0\<rparr>\<rparr>] \<and>
   set [\<lparr>t_id = Some 2, t_description = ascii ''Call mom'', t_status = ''pending'',
        t_created_at = \<lparr>year = 2025, month = 9, day = 29, hour = 12, minute = 0, second = 7\<rparr>,
        t_completed_at = None\<rparr>] \<inter> set [\<lparr>t_id = Some 1, t_description = ascii ''Buy groceries'', t_status = ''completed'',
        t_created_at = \<lparr>year = 2025, month = 9, day = 29, hour = 12, minute = 0, second = 0\<rparr>,
        t_completed_at = Some \<lparr>year = 2025, month = 9, day = 30, hour = 8, minute = 30, second = 0\<rparr>\<rparr>] = {}"
proof -
  let ?c1 = "\<lparr>database_path = '':memory:'', failing = [],
        now = \<lparr>year = 2025, month = 9, day = 29, hour = 12, minute = 0, second = 0\<rparr>, plan = id\<rparr>"
  let ?c2 = "\<lparr>database_path = '':memory:'', failing = [],
        now = \<lparr>year = 2025, month = 9, day = 29, hour = 12, minute = 0, second = 7\<rparr>, plan = id\<rparr>"
  let ?c3 = "\<lparr>database_path = '':memory:'', failing = [],
        now = \<lparr>year = 2025, month = 9, day = 30, hour = 8, minute = 30, second = 0\<rparr>, plan = id\<rparr>"
  let ?q = "\<lparr>database_path = '':memory:'', failing = [],
        now = \<lparr>year = 2025, month = 10, day = 1, hour = 9, minute = 0, second = 0\<rparr>, plan = rev\<rparr>"
  let ?stored = "\<lparr>tasks = [\<lparr>r_id = 1, r_description = ascii ''Buy groceries'', r_status = ''completed'',
                 r_created_at = ''2025-09-29 12:00:00'',
                 r_completed_at = Some ''2025-09-30 08:30:00''\<rparr>,
              \<lparr>r_id = 2, r_description = ascii ''Call mom'', r_status = ''pending'',
                 r_created_at = ''2025-09-29 12:00:07'', r_completed_at = None\<rparr>],
       seq = 2\<rparr>"
  have v: "valid_datetime (now ?c1)" "valid_datetime (now ?c2)" "valid_datetime (now ?c3)"
    by code_simp+
  have s: "snd (mark_completed ?c3 1
             (snd (create_task ?c2 (Some (ascii ''Call mom''))
                (snd (create_task ?c1 (Some (ascii ''Buy groceries'')) empty_database))))) = ?stored"
    by code_simp
  have "reachable (snd (mark_completed ?c3 1
             (snd (create_task ?c2 (Some (ascii ''Call mom''))
                (snd (create_task ?c1 (Some (ascii ''Buy groceries'')) empty_database))))))"
    by (intro reachable.complete reachable.create reachable.schema v)
  then have r: "reachable ?stored" unfolding s .
  have n: "no_faults ?q" by (simp add: no_faults_def)
  have p: "plan_ok ?q" by (simp add: plan_ok_def)
  have qa: "get_all_tasks ?q ?stored = Inr [\<lparr>t_id = Some 2, t_description = ascii ''Call mom'', t_status = ''pending'',
        t_created_at = \<lparr>year = 2025, month = 9, day = 29, hour = 12, minute = 0, second = 7\<rparr>,
        t_completed_at = None\<rparr>, \<lparr>t_id = Some 1, t_description = ascii ''Buy groceries'', t_status = ''completed'',
        t_created_at = \<lparr>year = 2025, month = 9, day = 29, hour = 12, minute = 0, second = 0\<rparr>,
        t_completed_at = Some \<lparr>year = 2025, month = 9, day = 30, hour = 8, minute = 30, second = 0\<rparr>\<rparr>]" by code_simp
  have qp: "get_pending_tasks ?q ?stored = Inr [\<lparr>t_id = Some 2, t_description = ascii ''Call mom'', t_status = ''pending'',
        t_created_at = \<lparr>year = 2025, month = 9, day = 29, hour = 12, minute = 0, second = 7\<rparr>,
        t_completed_at = None\<rparr>]" by code_simp
  have qc: "get_completed_tasks ?q ?stored = Inr [\<lparr>t_id = Some 1, t_description = ascii ''Buy groceries'', t_status = ''completed'',
        t_created_at = \<lparr>year = 2025, month = 9, day = 29, hour = 12, minute = 0, second = 0\<rparr>,
        t_completed_at = Some \<lparr>year = 2025, month = 9, day = 30, hour = 8, minute = 30, second = 0\<rparr>\<rparr>]" by code_simp
  from pending_and_completed_partition_all[OF r n p n p n p] obtain a b c where
    "get_all_tasks ?q ?stored = Inr a" "get_pending_tasks ?q ?stored = Inr b"
    "get_completed_tasks ?q ?stored = Inr c" "set b \<union> set c = set a" "set b \<inter> set c = {}"
    by blast
  then have "set [\<lparr>t_id = Some 2, t_description = ascii ''Call mom'', t_status = ''pending'',
        t_created_at = \<lparr>year = 2025, month = 9, day = 29, hour = 12, minute = 0, second = 7\<rparr>,
        t_completed_at = None\<rparr>] \<union> set [\<lparr>t_id = Some 1, t_description = ascii ''Buy groceries'', t_status = ''completed'',
        t_created_at = \<lparr>year = 2025, month = 9, day = 29, hour = 12, minute = 0, second = 0\<rparr>,
        t_completed_at = Some \<lparr>year = 2025, month = 9, day = 30, hour = 8, minute = 30, second = 0\<rparr>\<rparr>] = set [\<lparr>t_id = Some 2, t_description = ascii ''Call mom'', t_status = ''pending'',
        t_created_at = \<lparr>year = 2025, month = 9, day = 29, hour = 12, minute = 0, second = 7\<rparr>,
        t_completed_at = None\<rparr>, \<lparr>t_id = Some 1, t_description = ascii ''Buy groceries'', t_status = ''completed'',
        t_created_at = \<lparr>year = 2025, month = 9, day = 29, hour = 12, minute = 0, second = 0\<rparr>,
        t_completed_at = Some \<lparr>year = 2025, month = 9, day = 30, hour = 8, minute = 30, second = 0\<rparr>\<rparr>]" "set [\<lparr>t_id = Some 2, t_description = ascii ''Call mom'', t_status = ''pending'',
        t_created_at = \<lparr>year = 2025, month = 9, day = 29, hour = 12, minute = 0, second = 7\<rparr>,
        t_completed_at = None\<rparr>] \<inter> set [\<lparr>t_id = Some 1, t_description = ascii ''Buy groceries'', t_status = ''completed'',
        t_created_at = \<lparr>year = 2025, month = 9, day = 29, hour = 12, minute = 0, second = 0\<rparr>,
        t_completed_at = Some \<lparr>year = 2025, month = 9, day = 30, hour = 8, minute = 30, second = 0\<rparr>\<rparr>] = {}"
    unfolding qa qp qc by simp_all
  with qa qp qc show ?thesis by blast
qed



end
